theory Spec2Isabelle
  imports Complex_Main "HOL-Library.Multiset"
begin

section \<open>JustIn: adaptive just intonation for MIDI pitches\<close>

text \<open>
  A shallow embedding of \<^verbatim>\<open>justin-min-es2015.js\<close>. MIDI pitches and velocities are
  integers; the just pitches are exact rationals (the decimal literals of the source are
  read as fractions, so arithmetic is exact and no rounding is modelled). The global
  variables of the script form the record \<open>State\<close>; every function that mutates them
  takes the state and returns the new one. What the script sends through \<open>outlet\<close> or
  \<open>post\<close> is returned as a list of messages, in the order sent. An uncaught
  \<open>TypeError\<close> (reading a property of \<open>undefined\<close>) is the value \<open>None\<close>.
\<close>

subsection \<open>Objects\<close>

record JustObj =
  equalInterval :: int
  justInterval :: rat
  rank :: int

text \<open>The field \<open>order\<close> of a \<open>JustObj\<close> is named \<open>rank\<close> here, since a record field
  name is global and \<open>Note\<close> has a field \<open>order\<close> too.\<close>

definition mkJustObj :: "int \<Rightarrow> rat \<Rightarrow> int \<Rightarrow> JustObj" where
  "mkJustObj e j r = \<lparr>equalInterval = e, justInterval = j, rank = r\<rparr>"

record Note =
  equalPitch :: int
  justPitch :: rat
  order :: int
  velocity :: int

definition mkNote :: "int \<Rightarrow> int \<Rightarrow> Note" where
  "mkNote pitch vel = \<lparr>equalPitch = pitch, justPitch = of_int pitch, order = - 1, velocity = vel\<rparr>"

subsection \<open>Limits\<close>

definition fiveLimit :: "JustObj list" where
  "fiveLimit =
    [mkJustObj 0 0 11, mkJustObj 1 (112 / 100) 1, mkJustObj 2 (204 / 100) 6,
     mkJustObj 3 (316 / 100) 10, mkJustObj 4 (386 / 100) 2, mkJustObj 5 (498 / 100) 9,
     mkJustObj 6 (59 / 10) 3, mkJustObj 7 (702 / 100) 8, mkJustObj 8 (814 / 100) 4,
     mkJustObj 9 (884 / 100) 5, mkJustObj 10 (996 / 100) 7, mkJustObj 11 (1088 / 100) 0]"

definition sevenLimit :: "JustObj list" where
  "sevenLimit =
    [mkJustObj 0 0 11, mkJustObj 1 (112 / 100) 1, mkJustObj 2 (204 / 100) 6,
     mkJustObj 3 (316 / 100) 9, mkJustObj 4 (386 / 100) 3, mkJustObj 5 (498 / 100) 2,
     mkJustObj 6 (59 / 10) 10, mkJustObj 7 (702 / 100) 8, mkJustObj 8 (814 / 100) 4,
     mkJustObj 9 (884 / 100) 5, mkJustObj 10 (969 / 100) 7, mkJustObj 11 (1088 / 100) 0]"

definition elevenLimit :: "JustObj list" where
  "elevenLimit =
    [mkJustObj 0 0 11, mkJustObj 1 (112 / 100) 1, mkJustObj 2 (204 / 100) 9,
     mkJustObj 3 (316 / 100) 3, mkJustObj 4 (386 / 100) 2, mkJustObj 5 (498 / 100) 6,
     mkJustObj 6 (551 / 100) 10, mkJustObj 7 (702 / 100) 8, mkJustObj 8 (814 / 100) 4,
     mkJustObj 9 (884 / 100) 5, mkJustObj 10 (969 / 100) 7, mkJustObj 11 (1088 / 100) 0]"

definition thirteenLimit :: "JustObj list" where
  "thirteenLimit =
    [mkJustObj 0 0 11, mkJustObj 1 (112 / 100) 1, mkJustObj 2 (204 / 100) 9,
     mkJustObj 3 (316 / 100) 3, mkJustObj 4 (386 / 100) 2, mkJustObj 5 (498 / 100) 6,
     mkJustObj 6 (551 / 100) 10, mkJustObj 7 (702 / 100) 8, mkJustObj 8 (840 / 100) 4,
     mkJustObj 9 (884 / 100) 5, mkJustObj 10 (969 / 100) 7, mkJustObj 11 (1088 / 100) 0]"

subsection \<open>Variables and messages\<close>

record State =
  intensity :: rat
  meanMode :: bool
  heldNotes :: "Note list"
  justSystem :: "JustObj list"

datatype msg =
    NoteControl int int
  | NoteMessage int rat
  | JustPitches "rat list"
  | EqualPitches "int list"
  | OffsetOctave "rat list"
  | OffsetList "rat list"
  | Done
  | PostError string

text \<open>The payload of a list message is the list of numbers that the source joins with
  spaces; how a number is printed is not modelled.\<close>

text \<open>The argument of \<open>setMeanMode\<close>, which the source compares with \<open>==\<close>.\<close>

datatype jsval = JBool bool | JNum int

text \<open>The state once the script is loaded: the initialisers of the variables, then the
  top-level call \<open>setLimit(5)\<close> with no note held.\<close>

definition initState :: State where
  "initState = \<lparr>intensity = 3 / 4, meanMode = True, heldNotes = [], justSystem = fiveLimit\<rparr>"

subsection \<open>Note handling\<close>

definition addNote :: "int \<Rightarrow> int \<Rightarrow> Note list \<Rightarrow> Note list" where
  "addNote pitch vel hn = hn @ [mkNote pitch vel]"

text \<open>\<open>heldNotes.splice(n, 1)\<close>\<close>

definition removeNote :: "nat \<Rightarrow> Note list \<Rightarrow> Note list" where
  "removeNote n hn = take n hn @ drop (n + 1) hn"

text \<open>The note-off loop of \<open>noteHandler\<close>: \<open>heldNotes.length\<close> is read again at every test,
  and the index advances after a removal as after any other iteration.\<close>

function noteOffLoop :: "int \<Rightarrow> nat \<Rightarrow> Note list \<Rightarrow> Note list" where
  "noteOffLoop pitch i hn =
     (if i < length hn then
        (if pitch = equalPitch (hn ! i) then noteOffLoop pitch (i + 1) (removeNote i hn)
         else noteOffLoop pitch (i + 1) hn)
      else hn)"
  by pat_completeness auto
termination
  by (relation "measure (\<lambda>(pitch, i, hn). length hn - i)") (auto simp: removeNote_def)

definition noteHandler :: "int \<Rightarrow> int \<Rightarrow> Note list \<Rightarrow> Note list" where
  "noteHandler pitch vel hn =
     (let isNoteOn = (vel > 0) in
      if isNoteOn then addNote pitch vel hn
      else noteOffLoop pitch 0 hn)"

subsection \<open>The retuning pass\<close>

definition resetJustPitches :: "Note list \<Rightarrow> Note list" where
  "resetJustPitches noteArr =
     map (\<lambda>n. n\<lparr>justPitch := of_int (equalPitch n), order := - 1\<rparr>) noteArr"

text \<open>\<open>Array.prototype.sort\<close> with the comparator \<open>a.equalPitch - b.equalPitch\<close>, taken
  as stable (notes of equal pitch keep their order).\<close>

definition sortPitchesAscending :: "Note list \<Rightarrow> Note list" where
  "sortPitchesAscending noteArr = sort_key equalPitch noteArr"

text \<open>The remainder operator \<open>%\<close> of JavaScript truncates towards zero.\<close>

definition jsrem :: "int \<Rightarrow> int \<Rightarrow> int" where
  "jsrem a b = sgn a * (\<bar>a\<bar> mod \<bar>b\<bar>)"

text \<open>\<open>justSystem[k]\<close>: \<open>undefined\<close> outside the array.\<close>

definition lookupJust :: "JustObj list \<Rightarrow> int \<Rightarrow> JustObj option" where
  "lookupJust js k = (if 0 \<le> k \<and> k < int (length js) then Some (js ! nat k) else None)"

text \<open>The notes are objects that the array refers to; \<open>createInterval\<close> and \<open>updateOrder\<close>
  mutate them, which is an update of the array at the note's index.\<close>

definition createInterval :: "nat \<Rightarrow> nat \<Rightarrow> rat \<Rightarrow> Note list \<Rightarrow> Note list" where
  "createInterval hi lo interval noteArr =
     (if order (noteArr ! hi) > order (noteArr ! lo)
      then noteArr[lo := (noteArr ! lo)\<lparr>justPitch := justPitch (noteArr ! hi) - interval\<rparr>]
      else noteArr[hi := (noteArr ! hi)\<lparr>justPitch := justPitch (noteArr ! lo) + interval\<rparr>])"

definition updateOrder :: "nat \<Rightarrow> int \<Rightarrow> Note list \<Rightarrow> Note list" where
  "updateOrder n ord noteArr =
     (if ord > order (noteArr ! n) then noteArr[n := (noteArr ! n)\<lparr>order := ord\<rparr>]
      else noteArr)"

text \<open>The body of the inner loop of \<open>adjustPitches\<close>, for the indices \<open>lo\<close> and \<open>hi\<close>.\<close>

definition adjustPair :: "JustObj list \<Rightarrow> nat \<Rightarrow> nat \<Rightarrow> Note list \<Rightarrow> Note list option" where
  "adjustPair js lo hi noteArr =
     (let LoNote = noteArr ! lo;
          HiNote = noteArr ! hi;
          interval = equalPitch HiNote - equalPitch LoNote
      in case lookupJust js (jsrem interval 12) of
           None \<Rightarrow> None
         | Some IntervalObj \<Rightarrow>
             (let intervalIsHigherOrder =
                    (rank IntervalObj > order HiNote \<or> rank IntervalObj > order LoNote)
              in if intervalIsHigherOrder then
                   (let compoundJustInterval =
                          (justInterval IntervalObj - of_int (jsrem interval 12)) + of_int interval;
                        a1 = createInterval hi lo compoundJustInterval noteArr;
                        a2 = updateOrder hi (rank IntervalObj) a1;
                        a3 = updateOrder lo (rank IntervalObj) a2
                    in Some a3)
                 else Some noteArr))"

function adjustInner :: "JustObj list \<Rightarrow> nat \<Rightarrow> nat \<Rightarrow> nat \<Rightarrow> Note list \<Rightarrow> Note list option" where
  "adjustInner js numNotes lo hi noteArr =
     (if hi < numNotes then
        (case adjustPair js lo hi noteArr of
           None \<Rightarrow> None
         | Some noteArr' \<Rightarrow> adjustInner js numNotes lo (hi + 1) noteArr')
      else Some noteArr)"
  by pat_completeness auto
termination
  by (relation "measure (\<lambda>(js, numNotes, lo, hi, noteArr). numNotes - hi)") auto

text \<open>The outer loop runs while \<open>lo < numNotes - 1\<close>, written \<open>lo + 1 < numNotes\<close> on
  natural numbers.\<close>

function adjustOuter :: "JustObj list \<Rightarrow> nat \<Rightarrow> nat \<Rightarrow> Note list \<Rightarrow> Note list option" where
  "adjustOuter js numNotes lo noteArr =
     (if lo + 1 < numNotes then
        (case adjustInner js numNotes lo (lo + 1) noteArr of
           None \<Rightarrow> None
         | Some noteArr' \<Rightarrow> adjustOuter js numNotes (lo + 1) noteArr')
      else Some noteArr)"
  by pat_completeness auto
termination
  by (relation "measure (\<lambda>(js, numNotes, lo, noteArr). numNotes - lo)") auto

definition adjustPitches :: "JustObj list \<Rightarrow> Note list \<Rightarrow> Note list option" where
  "adjustPitches js noteArr = adjustOuter js (length noteArr) 0 noteArr"

definition offsetAllPitches :: "rat \<Rightarrow> Note list \<Rightarrow> Note list" where
  "offsetAllPitches offset hn = map (\<lambda>n. n\<lparr>justPitch := justPitch n + offset\<rparr>) hn"

definition meanAdjust :: "Note list \<Rightarrow> Note list" where
  "meanAdjust hn =
     (let equalTotal = sum_list (map equalPitch hn);
          justTotal = sum_list (map justPitch hn);
          numNotes = length hn;
          meanOffset = (of_int equalTotal - justTotal) / of_nat numNotes
      in offsetAllPitches meanOffset hn)"

definition fixedJustify :: "State \<Rightarrow> State option" where
  "fixedJustify s =
     (let hn1 = resetJustPitches (heldNotes s) in
      if length hn1 > 1 then
        (let hn2 = sortPitchesAscending hn1 in
         case adjustPitches (justSystem s) hn2 of
           None \<Rightarrow> None
         | Some hn3 \<Rightarrow>
             Some (s\<lparr>heldNotes := (if meanMode s then meanAdjust hn3 else hn3)\<rparr>))
      else Some (s\<lparr>heldNotes := hn1\<rparr>))"

text \<open>\<open>heldNotes[0]\<close> is truthy exactly when the array is not empty.\<close>

definition justify :: "State \<Rightarrow> State option" where
  "justify s = (if heldNotes s \<noteq> [] then fixedJustify s else Some s)"

subsection \<open>Output\<close>

definition noteCtrlOut :: "int \<Rightarrow> int \<Rightarrow> msg list" where
  "noteCtrlOut pitch vel = [NoteControl pitch vel]"

definition noteMsgOut :: "State \<Rightarrow> int \<Rightarrow> rat \<Rightarrow> msg list" where
  "noteMsgOut s pitch bend = [NoteMessage pitch (bend * intensity s)]"

definition pitchListsOut :: "State \<Rightarrow> msg list" where
  "pitchListsOut s =
     (let justList = map (\<lambda>N. ((justPitch N - of_int (equalPitch N)) * intensity s)
                               + of_int (equalPitch N)) (heldNotes s);
          equalList = map (\<lambda>N. equalPitch N) (heldNotes s)
      in [JustPitches justList, EqualPitches equalList])"

text \<open>A write at a negative index (a negative pitch) adds a property that \<open>join\<close> does
  not print, so the twelve slots stay as they are.\<close>

definition offsetOctaveOut :: "State \<Rightarrow> msg list" where
  "offsetOctaveOut s =
     [OffsetOctave
        (foldl (\<lambda>offsetArr N.
                  (let k = jsrem (equalPitch N) 12;
                       v = (justPitch N - of_int (equalPitch N)) * intensity s
                   in if 0 \<le> k then offsetArr[nat k := v] else offsetArr))
               [0, 0, 0, 0, 0, 0, 0, 0, 0, 0, 0, 0] (heldNotes s))]"

definition offsetListOut :: "State \<Rightarrow> msg list" where
  "offsetListOut s =
     [OffsetList (map (\<lambda>N. (justPitch N - of_int (equalPitch N)) * intensity s) (heldNotes s))]"

definition justCompOut :: "State \<Rightarrow> msg list" where
  "justCompOut s = pitchListsOut s @ offsetOctaveOut s @ offsetListOut s"

definition allNoteMsgOut :: "State \<Rightarrow> msg list" where
  "allNoteMsgOut s =
     concat (map (\<lambda>obj. noteMsgOut s (equalPitch obj) (justPitch obj - of_int (equalPitch obj)))
                 (heldNotes s))
     @ justCompOut s"

subsection \<open>Entry points\<close>

definition noteIn :: "int \<Rightarrow> int \<Rightarrow> State \<Rightarrow> (State \<times> msg list) option" where
  "noteIn pitch vel s =
     (let out1 = noteCtrlOut pitch vel;
          s1 = s\<lparr>heldNotes := noteHandler pitch vel (heldNotes s)\<rparr>
      in case justify s1 of
           None \<Rightarrow> None
         | Some s2 \<Rightarrow> Some (s2, out1 @ allNoteMsgOut s2 @ [Done]))"

definition setLimit :: "int \<Rightarrow> State \<Rightarrow> (State \<times> msg list) option" where
  "setLimit val s =
     (let (s1, out1) =
            (if val = 5 then (s\<lparr>justSystem := fiveLimit\<rparr>, [])
             else if val = 7 then (s\<lparr>justSystem := sevenLimit\<rparr>, [])
             else if val = 11 then (s\<lparr>justSystem := elevenLimit\<rparr>, [])
             else if val = 13 then (s\<lparr>justSystem := thirteenLimit\<rparr>, [])
             else (s, [PostError ''Tuning not available.\<newline>Valid arguments: 5, 7, 11, 13'']))
      in case justify s1 of
           None \<Rightarrow> None
         | Some s2 \<Rightarrow> Some (s2, out1))"

text \<open>\<open>bool == false\<close> holds for \<open>false\<close> and \<open>0\<close>, \<open>bool == true\<close> for \<open>true\<close> and \<open>1\<close>.\<close>

definition looseEq :: "jsval \<Rightarrow> bool \<Rightarrow> bool" where
  "looseEq v b = (case v of JBool c \<Rightarrow> c = b | JNum n \<Rightarrow> n = (if b then 1 else 0))"

definition setMeanMode :: "jsval \<Rightarrow> State \<Rightarrow> State \<times> msg list" where
  "setMeanMode b s =
     (if looseEq b False then (s\<lparr>meanMode := False\<rparr>, [])
      else if looseEq b True then (s\<lparr>meanMode := True\<rparr>, [])
      else (s, [PostError ''Not valid.\<newline>Valid arguments: 1 or true, 0 or false'']))"

definition setIntensity :: "rat \<Rightarrow> State \<Rightarrow> (State \<times> msg list) option" where
  "setIntensity val s =
     (let s1 = s\<lparr>intensity := val\<rparr> in
      case adjustPitches (justSystem s1) (heldNotes s1) of
        None \<Rightarrow> None
      | Some hn \<Rightarrow> (let s2 = s1\<lparr>heldNotes := hn\<rparr> in Some (s2, allNoteMsgOut s2)))"

definition allNotesOff :: "State \<Rightarrow> State \<times> msg list" where
  "allNotesOff s =
     (s\<lparr>heldNotes := []\<rparr>, concat (map (\<lambda>obj. noteCtrlOut (equalPitch obj) 0) (heldNotes s)))"

subsection \<open>The pairwise adjustment as the specification words it\<close>

text \<open>
  One pair: the entry is looked up at the interval modulo 12; the pair is adjusted when
  the entry's rank exceeds the applied rank of either note; the note of strictly lower
  applied rank is moved relative to the other one (the high note on a tie); both applied
  ranks become the maximum of the old rank and the entry's rank.
\<close>

definition specAdjustPair :: "JustObj list \<Rightarrow> Note list \<Rightarrow> nat \<times> nat \<Rightarrow> Note list" where
  "specAdjustPair tbl notes p =
     (let lo = fst p; hi = snd p;
          lowNote = notes ! lo; highNote = notes ! hi;
          interval = equalPitch highNote - equalPitch lowNote;
          entry = tbl ! nat (interval mod 12)
      in if rank entry > order highNote \<or> rank entry > order lowNote then
           (let compoundJust = (justInterval entry - of_int (interval mod 12)) + of_int interval;
                lowNote' = (if order lowNote < order highNote
                            then lowNote\<lparr>justPitch := justPitch highNote - compoundJust\<rparr>
                            else lowNote);
                highNote' = (if order lowNote < order highNote
                             then highNote
                             else highNote\<lparr>justPitch := justPitch lowNote + compoundJust\<rparr>)
            in notes[lo := lowNote'\<lparr>order := max (order lowNote) (rank entry)\<rparr>,
                     hi := highNote'\<lparr>order := max (order highNote) (rank entry)\<rparr>])
         else notes)"

text \<open>The pairs in the order visited: low index 0 to \<open>n - 2\<close>, and for each the high
  index from \<open>low + 1\<close> to \<open>n - 1\<close>.\<close>

definition specPairs :: "nat \<Rightarrow> (nat \<times> nat) list" where
  "specPairs n = concat (map (\<lambda>lo. map (Pair lo) [lo + 1 ..< n]) [0 ..< n - 1])"

definition specPairwise :: "JustObj list \<Rightarrow> Note list \<Rightarrow> Note list" where
  "specPairwise tbl notes = foldl (specAdjustPair tbl) notes (specPairs (length notes))"

text \<open>The tie-break condition of a pair is false: the entry's rank exceeds neither note's
  applied rank.\<close>

definition saturated :: "JustObj list \<Rightarrow> Note list \<Rightarrow> nat \<times> nat \<Rightarrow> bool" where
  "saturated tbl notes p =
     (let r = rank (tbl ! nat ((equalPitch (notes ! snd p) - equalPitch (notes ! fst p)) mod 12))
      in r \<le> order (notes ! snd p) \<and> r \<le> order (notes ! fst p))"

text \<open>The held notes after a retuning pass in which no lookup fails: reset, then, with
  two notes or more, sort, pairwise adjustment and mean-centering when enabled.\<close>

definition passNotes :: "JustObj list \<Rightarrow> bool \<Rightarrow> Note list \<Rightarrow> Note list" where
  "passNotes tbl mean notes =
     (let hn1 = resetJustPitches notes in
      if length hn1 > 1 then
        (let hn3 = specPairwise tbl (sortPitchesAscending hn1)
         in if mean then meanAdjust hn3 else hn3)
      else hn1)"

declare noteOffLoop.simps [simp del] adjustInner.simps [simp del] adjustOuter.simps [simp del]

section \<open>The pairwise adjustment, pair by pair\<close>

lemma jsrem_nonneg: "0 \<le> a \<Longrightarrow> jsrem a 12 = a mod 12"
  by (simp add: jsrem_def sgn_if)

lemma lookupJust_mod:
  "length js = 12 \<Longrightarrow> lookupJust js (a mod 12) = Some (js ! nat (a mod 12))"
  by (simp add: lookupJust_def)

lemma adjustPair_spec:
  assumes "lo < hi" "hi < length xs" "length js = 12"
    and "equalPitch (xs ! lo) \<le> equalPitch (xs ! hi)"
  shows "adjustPair js lo hi xs = Some (specAdjustPair js xs (lo, hi))"
proof -
  have nn: "0 \<le> equalPitch (xs ! hi) - equalPitch (xs ! lo)" using assms(4) by simp
  show ?thesis
    using assms(1,2)
    unfolding adjustPair_def specAdjustPair_def Let_def jsrem_nonneg[OF nn]
      lookupJust_mod[OF assms(3)]
    by (auto simp: createInterval_def updateOrder_def max_def list_update_swap)
qed

lemma list_update_map_id: "(map f xs)[i := f (xs ! i)] = map f xs"
proof (cases "i < length xs")
  case True
  then have "f (xs ! i) = map f xs ! i" by simp
  then show ?thesis by (simp only: list_update_id)
next
  case False
  then show ?thesis by (simp add: list_update_beyond)
qed

lemma map_list_update_same2:
  "f y = f (xs ! i) \<Longrightarrow> f z = f (xs ! j) \<Longrightarrow> map f (xs[i := y, j := z]) = map f xs"
  by (simp add: map_update list_update_map_id)

lemma order_list_update_le:
  "order (xs ! i) \<le> order y \<Longrightarrow> order (xs ! j) \<le> order (xs[i := y] ! j)"
proof (cases "i < length xs")
  case True
  assume "order (xs ! i) \<le> order y"
  with True show ?thesis by (cases "i = j") simp_all
next
  case False
  then show ?thesis by (simp add: list_update_beyond)
qed

lemma length_specAdjustPair [simp]: "length (specAdjustPair js xs p) = length xs"
  by (simp add: specAdjustPair_def Let_def)

lemma equalPitch_specAdjustPair [simp]:
  "map equalPitch (specAdjustPair js xs p) = map equalPitch xs"
  by (simp add: specAdjustPair_def Let_def map_list_update_same2)

lemma velocity_specAdjustPair [simp]:
  "map velocity (specAdjustPair js xs p) = map velocity xs"
  by (simp add: specAdjustPair_def Let_def map_list_update_same2)

lemma nth_equalPitch_specAdjustPair [simp]:
  "i < length xs \<Longrightarrow> equalPitch (specAdjustPair js xs p ! i) = equalPitch (xs ! i)"
  using equalPitch_specAdjustPair [of js xs p]
  by (metis length_specAdjustPair nth_map)

lemma order_specAdjustPair_mono:
  assumes "fst p \<noteq> snd p"
  shows "order (xs ! i) \<le> order (specAdjustPair js xs p ! i)"
  using assms
  by (auto simp: specAdjustPair_def Let_def intro!: order_trans[OF order_list_update_le order_list_update_le])

lemma specAdjustPair_saturated_id:
  "saturated js xs p \<Longrightarrow> specAdjustPair js xs p = xs"
  by (auto simp: specAdjustPair_def saturated_def Let_def)

lemma saturated_specAdjustPair_self:
  assumes "fst p \<noteq> snd p" "fst p < length xs" "snd p < length xs"
  shows "saturated js (specAdjustPair js xs p) p"
proof (cases "saturated js xs p")
  case True
  then show ?thesis by (simp add: specAdjustPair_saturated_id)
next
  case False
  have e1: "equalPitch (specAdjustPair js xs p ! fst p) = equalPitch (xs ! fst p)"
    and e2: "equalPitch (specAdjustPair js xs p ! snd p) = equalPitch (xs ! snd p)"
    using assms by simp_all
  show ?thesis
    unfolding saturated_def Let_def e1 e2
    using assms False
    by (auto simp: specAdjustPair_def saturated_def Let_def)
qed

lemma saturated_specAdjustPair_other:
  assumes "fst p \<noteq> snd p" "fst q < length xs" "snd q < length xs" "saturated js xs q"
  shows "saturated js (specAdjustPair js xs p) q"
proof -
  have e1: "equalPitch (specAdjustPair js xs p ! fst q) = equalPitch (xs ! fst q)"
    and e2: "equalPitch (specAdjustPair js xs p ! snd q) = equalPitch (xs ! snd q)"
    using assms by simp_all
  show ?thesis
    unfolding saturated_def Let_def e1 e2
    using assms(4) order_specAdjustPair_mono[OF assms(1), of xs "fst q" js]
      order_specAdjustPair_mono[OF assms(1), of xs "snd q" js]
    by (auto simp: saturated_def Let_def)
qed


lemma length_foldl_spec [simp]: "length (foldl (specAdjustPair js) xs ps) = length xs"
  by (induction ps arbitrary: xs) simp_all

lemma equalPitch_foldl_spec [simp]:
  "map equalPitch (foldl (specAdjustPair js) xs ps) = map equalPitch xs"
  by (induction ps arbitrary: xs) simp_all

lemma velocity_foldl_spec [simp]:
  "map velocity (foldl (specAdjustPair js) xs ps) = map velocity xs"
  by (induction ps arbitrary: xs) simp_all

lemma sorted_equalPitch_nth:
  "sorted (map equalPitch xs) \<Longrightarrow> lo < hi \<Longrightarrow> hi < length xs \<Longrightarrow>
     equalPitch (xs ! lo) \<le> equalPitch (xs ! hi)"
  using sorted_nth_mono [of "map equalPitch xs" lo hi] by simp

lemma adjustInner_spec:
  "length xs = n \<Longrightarrow> lo < hi \<Longrightarrow> sorted (map equalPitch xs) \<Longrightarrow> length js = 12 \<Longrightarrow>
     adjustInner js n lo hi xs = Some (foldl (specAdjustPair js) xs (map (Pair lo) [hi ..< n]))"
proof (induction js n lo hi xs rule: adjustInner.induct)
  case (1 js n lo hi xs)
  show ?case
  proof (cases "hi < n")
    case True
    have le: "equalPitch (xs ! lo) \<le> equalPitch (xs ! hi)"
      by (rule sorted_equalPitch_nth) (use "1.prems" True in simp_all)
    have step: "adjustPair js lo hi xs = Some (specAdjustPair js xs (lo, hi))"
      using adjustPair_spec "1.prems" True le by simp
    have rest: "adjustInner js n lo (hi + 1) (specAdjustPair js xs (lo, hi))
        = Some (foldl (specAdjustPair js) (specAdjustPair js xs (lo, hi))
                  (map (Pair lo) [hi + 1 ..< n]))"
      using "1.IH" [OF True step] "1.prems" by simp
    show ?thesis
      using True step rest
      by (subst adjustInner.simps) (simp add: upt_conv_Cons)
  next
    case False
    then show ?thesis by (subst adjustInner.simps) simp
  qed
qed

lemma adjustOuter_spec:
  "length xs = n \<Longrightarrow> sorted (map equalPitch xs) \<Longrightarrow> length js = 12 \<Longrightarrow>
     adjustOuter js n lo xs
       = Some (foldl (specAdjustPair js) xs
                 (concat (map (\<lambda>l. map (Pair l) [l + 1 ..< n]) [lo ..< n - 1])))"
proof (induction js n lo xs rule: adjustOuter.induct)
  case (1 js n lo xs)
  show ?case
  proof (cases "lo + 1 < n")
    case True
    let ?ys = "foldl (specAdjustPair js) xs (map (Pair lo) [lo + 1 ..< n])"
    have inner: "adjustInner js n lo (lo + 1) xs = Some ?ys"
      using adjustInner_spec "1.prems" by simp
    have rest: "adjustOuter js n (lo + 1) ?ys
        = Some (foldl (specAdjustPair js) ?ys
                  (concat (map (\<lambda>l. map (Pair l) [l + 1 ..< n]) [lo + 1 ..< n - 1])))"
      using "1.IH" [OF True inner] "1.prems" by simp
    have "lo < n - Suc 0" using True by simp
    then have split: "[lo ..< n - Suc 0] = lo # [Suc lo ..< n - Suc 0]"
      by (simp add: upt_conv_Cons)
    show ?thesis
      using True inner rest
      by (subst adjustOuter.simps) (simp add: split)
  next
    case False
    then show ?thesis by (subst adjustOuter.simps) simp
  qed
qed

lemma adjustPitches_spec:
  "sorted (map equalPitch xs) \<Longrightarrow> length js = 12 \<Longrightarrow>
     adjustPitches js xs = Some (specPairwise js xs)"
  by (simp add: adjustPitches_def specPairwise_def specPairs_def adjustOuter_spec)

lemma specPairs_valid: "p \<in> set (specPairs n) \<Longrightarrow> fst p < snd p \<and> snd p < n"
  by (auto simp: specPairs_def)

lemma specPairs_complete: "lo < hi \<Longrightarrow> hi < n \<Longrightarrow> (lo, hi) \<in> set (specPairs n)"
  unfolding specPairs_def by (auto intro!: bexI [of _ lo])

lemma foldl_spec_saturates:
  assumes "\<forall>p \<in> set ps. fst p \<noteq> snd p \<and> fst p < length xs \<and> snd p < length xs"
  shows "\<forall>p \<in> set ps. saturated js (foldl (specAdjustPair js) xs ps) p"
  using assms
proof (induction ps rule: rev_induct)
  case Nil
  then show ?case by simp
next
  case (snoc q ps)
  let ?ys = "foldl (specAdjustPair js) xs ps"
  have q: "fst q \<noteq> snd q" "fst q < length ?ys" "snd q < length ?ys"
    using snoc.prems by simp_all
  have old: "\<forall>p \<in> set ps. saturated js ?ys p" using snoc by simp
  show ?case
  proof
    fix p assume "p \<in> set (ps @ [q])"
    then consider "p = q" | "p \<in> set ps" by auto
    then show "saturated js (foldl (specAdjustPair js) xs (ps @ [q])) p"
    proof cases
      case 1
      then show ?thesis using saturated_specAdjustPair_self [OF q] by simp
    next
      case 2
      then have "fst p < length ?ys" "snd p < length ?ys" using snoc.prems by simp_all
      then show ?thesis
        using saturated_specAdjustPair_other [OF q(1) _ _ old[rule_format, OF 2]] by simp
    qed
  qed
qed

lemma foldl_spec_saturated_id:
  "\<forall>p \<in> set ps. saturated js xs p \<Longrightarrow> foldl (specAdjustPair js) xs ps = xs"
  by (induction ps) (simp_all add: specAdjustPair_saturated_id)

section \<open>The retuning pass\<close>

lemma length_meanAdjust [simp]: "length (meanAdjust xs) = length xs"
  by (simp add: meanAdjust_def offsetAllPitches_def Let_def)

lemma equalPitch_meanAdjust [simp]: "map equalPitch (meanAdjust xs) = map equalPitch xs"
  by (simp add: meanAdjust_def offsetAllPitches_def Let_def)

lemma velocity_meanAdjust [simp]: "map velocity (meanAdjust xs) = map velocity xs"
  by (simp add: meanAdjust_def offsetAllPitches_def Let_def)

lemma order_meanAdjust [simp]: "map order (meanAdjust xs) = map order xs"
  by (simp add: meanAdjust_def offsetAllPitches_def Let_def)

lemma sum_offsetAllPitches:
  "sum_list (map justPitch (offsetAllPitches d xs))
     = sum_list (map justPitch xs) + of_nat (length xs) * d"
  by (induction xs) (simp_all add: offsetAllPitches_def algebra_simps)

lemma sum_meanAdjust:
  "xs \<noteq> [] \<Longrightarrow>
     sum_list (map justPitch (meanAdjust xs)) = of_int (sum_list (map equalPitch xs))"
  by (simp add: meanAdjust_def Let_def sum_offsetAllPitches)

lemma length_specPairwise [simp]: "length (specPairwise js xs) = length xs"
  by (simp add: specPairwise_def)

lemma equalPitch_specPairwise [simp]:
  "map equalPitch (specPairwise js xs) = map equalPitch xs"
  by (simp add: specPairwise_def)

lemma velocity_specPairwise [simp]:
  "map velocity (specPairwise js xs) = map velocity xs"
  by (simp add: specPairwise_def)

lemma length_resetJustPitches [simp]: "length (resetJustPitches xs) = length xs"
  by (simp add: resetJustPitches_def)

lemma equalPitch_resetJustPitches [simp]:
  "map equalPitch (resetJustPitches xs) = map equalPitch xs"
  by (simp add: resetJustPitches_def)

lemma velocity_resetJustPitches [simp]:
  "map velocity (resetJustPitches xs) = map velocity xs"
  by (simp add: resetJustPitches_def)

lemma length_sortPitchesAscending [simp]: "length (sortPitchesAscending xs) = length xs"
  by (simp add: sortPitchesAscending_def)

lemma sorted_sortPitchesAscending [simp]:
  "sorted (map equalPitch (sortPitchesAscending xs))"
  by (simp add: sortPitchesAscending_def)

lemma mset_sortPitchesAscending [simp]: "mset (sortPitchesAscending xs) = mset xs"
  by (simp add: sortPitchesAscending_def)

lemma sortPitchesAscending_sorted_id:
  "sorted (map equalPitch xs) \<Longrightarrow> sortPitchesAscending xs = xs"
  by (simp add: sortPitchesAscending_def sort_key_id_if_sorted)

lemma justSum_resetJustPitches:
  "sum_list (map justPitch (resetJustPitches xs)) = of_int (sum_list (map equalPitch xs))"
  by (induction xs) (simp_all add: resetJustPitches_def)

lemma length_passNotes [simp]: "length (passNotes js m xs) = length xs"
  by (simp add: passNotes_def Let_def)

lemma sorted_short: "length xs \<le> 1 \<Longrightarrow> sorted (map equalPitch xs)"
  by (cases xs) simp_all

lemma sorted_passNotes: "sorted (map equalPitch (passNotes js m xs))"
  by (simp add: passNotes_def Let_def sorted_short)

lemma mset_equalPitch_sortPitchesAscending:
  "mset (map equalPitch (sortPitchesAscending xs)) = mset (map equalPitch xs)"
  by (simp add: sortPitchesAscending_def)

lemma mset_equalPitch_passNotes:
  "mset (map equalPitch (passNotes js m xs)) = mset (map equalPitch xs)"
  by (simp add: passNotes_def Let_def mset_equalPitch_sortPitchesAscending del: mset_map)

lemma fixedJustify_passNotes:
  "length (justSystem s) = 12 \<Longrightarrow>
     fixedJustify s = Some (s\<lparr>heldNotes := passNotes (justSystem s) (meanMode s) (heldNotes s)\<rparr>)"
  by (simp add: fixedJustify_def passNotes_def Let_def adjustPitches_spec)

lemma passNotes_Nil [simp]: "passNotes js m [] = []"
  by (simp add: passNotes_def resetJustPitches_def)

lemma justify_passNotes:
  "length (justSystem s) = 12 \<Longrightarrow>
     justify s = Some (s\<lparr>heldNotes := passNotes (justSystem s) (meanMode s) (heldNotes s)\<rparr>)"
  by (simp add: justify_def fixedJustify_passNotes)

lemma sum_passNotes:
  assumes "xs \<noteq> []"
  shows "sum_list (map justPitch (passNotes js True xs)) = of_int (sum_list (map equalPitch xs))"
proof (cases "length xs > 1")
  case True
  let ?a = "specPairwise js (sortPitchesAscending (resetJustPitches xs))"
  have "length ?a = length xs" by simp
  then have "?a \<noteq> []" using assms by (metis length_0_conv)
  then have "sum_list (map justPitch (meanAdjust ?a)) = of_int (sum_list (map equalPitch ?a))"
    by (rule sum_meanAdjust)
  moreover have "mset (map equalPitch ?a) = mset (map equalPitch xs)"
    by (simp add: mset_equalPitch_sortPitchesAscending del: mset_map)
  then have "sum_list (map equalPitch ?a) = sum_list (map equalPitch xs)"
    by (metis sum_mset_sum_list)
  ultimately show ?thesis
    using True by (simp add: passNotes_def Let_def)
next
  case False
  then show ?thesis
    by (simp add: passNotes_def Let_def justSum_resetJustPitches)
qed


lemma saturated_cong:
  assumes "map equalPitch ys = map equalPitch xs" "map order ys = map order xs"
    and "fst p < length xs" "snd p < length xs"
  shows "saturated js ys p = saturated js xs p"
proof -
  have len: "length ys = length xs" using assms(1) by (rule map_eq_imp_length_eq)
  have nth: "equalPitch (ys ! i) = equalPitch (xs ! i) \<and> order (ys ! i) = order (xs ! i)"
    if "i < length xs" for i
    using that len nth_map [of i ys equalPitch] nth_map [of i xs equalPitch]
      nth_map [of i ys order] nth_map [of i xs order] assms(1,2) by simp
  show ?thesis
    using nth [OF assms(3)] nth [OF assms(4)] by (simp add: saturated_def)
qed

lemma specPairs_short: "n \<le> 1 \<Longrightarrow> specPairs n = []"
  by (simp add: specPairs_def)

lemma specPairwise_saturated:
  assumes "p \<in> set (specPairs (length xs))"
  shows "saturated js (specPairwise js xs) p"
proof -
  have "\<forall>q \<in> set (specPairs (length xs)).
          fst q \<noteq> snd q \<and> fst q < length xs \<and> snd q < length xs"
    using specPairs_valid by fastforce
  then show ?thesis
    unfolding specPairwise_def using foldl_spec_saturates assms by blast
qed

lemma passNotes_saturated:
  assumes "p \<in> set (specPairs (length xs))"
  shows "saturated js (passNotes js m xs) p"
proof (cases "length xs > 1")
  case True
  let ?srt = "sortPitchesAscending (resetJustPitches xs)"
  have len: "length ?srt = length xs" by simp
  have a: "saturated js (specPairwise js ?srt) p"
    using specPairwise_saturated [of p ?srt js] assms len by simp
  have valid: "fst p < length (specPairwise js ?srt)" "snd p < length (specPairwise js ?srt)"
    using specPairs_valid [OF assms] by simp_all
  have b: "saturated js (meanAdjust (specPairwise js ?srt)) p"
    using saturated_cong [OF equalPitch_meanAdjust order_meanAdjust valid] a by simp
  show ?thesis using True a b by (simp add: passNotes_def Let_def)
next
  case False
  then show ?thesis using assms by (simp add: specPairs_short)
qed

lemma adjustPitches_passNotes:
  assumes "length js = 12"
  shows "adjustPitches js (passNotes js m xs) = Some (passNotes js m xs)"
proof -
  have "\<forall>p \<in> set (specPairs (length (passNotes js m xs))). saturated js (passNotes js m xs) p"
    using passNotes_saturated by simp
  then have "specPairwise js (passNotes js m xs) = passNotes js m xs"
    unfolding specPairwise_def by (rule foldl_spec_saturated_id)
  then show ?thesis
    using adjustPitches_spec [of "passNotes js m xs" js] sorted_passNotes assms by simp
qed

lemma resetJustPitches_cong:
  "map equalPitch ys = map equalPitch xs \<Longrightarrow> map velocity ys = map velocity xs \<Longrightarrow>
     resetJustPitches ys = resetJustPitches xs"
proof (induction xs arbitrary: ys)
  case Nil
  then show ?case by simp
next
  case (Cons x xs)
  then obtain y ys' where ys: "ys = y # ys'" by (cases ys) auto
  have "map equalPitch ys' = map equalPitch xs" "map velocity ys' = map velocity xs"
    using Cons.prems ys by simp_all
  then have "resetJustPitches ys' = resetJustPitches xs" by (rule Cons.IH)
  moreover have "y\<lparr>justPitch := of_int (equalPitch y), order := - 1\<rparr>
               = x\<lparr>justPitch := of_int (equalPitch x), order := - 1\<rparr>"
    using Cons.prems ys by (intro Note.equality) simp_all
  ultimately show ?case using ys by (simp add: resetJustPitches_def)
qed

lemma resetJustPitches_sorted_reset:
  "resetJustPitches (sortPitchesAscending (resetJustPitches xs))
     = sortPitchesAscending (resetJustPitches xs)"
  unfolding resetJustPitches_def sortPitchesAscending_def
  by (rule map_idI) auto

lemma resetJustPitches_idem: "resetJustPitches (resetJustPitches xs) = resetJustPitches xs"
  by (simp add: resetJustPitches_def)

lemma passNotes_idem: "passNotes js m (passNotes js m xs) = passNotes js m xs"
proof (cases "length xs > 1")
  case True
  let ?srt = "sortPitchesAscending (resetJustPitches xs)"
  have "map equalPitch (passNotes js m xs) = map equalPitch ?srt"
    and "map velocity (passNotes js m xs) = map velocity ?srt"
    using True by (simp_all add: passNotes_def Let_def)
  then have "resetJustPitches (passNotes js m xs) = resetJustPitches ?srt"
    by (rule resetJustPitches_cong)
  then have r: "resetJustPitches (passNotes js m xs) = ?srt"
    by (simp only: resetJustPitches_sorted_reset)
  have s: "sortPitchesAscending ?srt = ?srt"
    by (rule sortPitchesAscending_sorted_id) simp
  have "passNotes js m (passNotes js m xs)
          = (if m then meanAdjust (specPairwise js ?srt) else specPairwise js ?srt)"
    unfolding passNotes_def [of js m "passNotes js m xs"] Let_def r s
    using True by simp
  also have "\<dots> = passNotes js m xs"
    using True by (simp add: passNotes_def Let_def)
  finally show ?thesis .
next
  case False
  then show ?thesis by (simp add: passNotes_def Let_def resetJustPitches_idem)
qed

section \<open>The tuning tables\<close>

text \<open>
  C9. In each of the four tuning tables the twelve rank values are a permutation of the
  integers 0 to 11, and the entry at chromatic class 0 has just deviation 0 and rank 11.
\<close>

theorem tables_rank_permutation:
  "length fiveLimit = 12 \<and> mset (map rank fiveLimit) = mset [0 .. 11]
     \<and> justInterval (fiveLimit ! 0) = 0 \<and> rank (fiveLimit ! 0) = 11
   \<and> length sevenLimit = 12 \<and> mset (map rank sevenLimit) = mset [0 .. 11]
     \<and> justInterval (sevenLimit ! 0) = 0 \<and> rank (sevenLimit ! 0) = 11
   \<and> length elevenLimit = 12 \<and> mset (map rank elevenLimit) = mset [0 .. 11]
     \<and> justInterval (elevenLimit ! 0) = 0 \<and> rank (elevenLimit ! 0) = 11
   \<and> length thirteenLimit = 12 \<and> mset (map rank thirteenLimit) = mset [0 .. 11]
     \<and> justInterval (thirteenLimit ! 0) = 0 \<and> rank (thirteenLimit ! 0) = 11"
  by (simp add: fiveLimit_def sevenLimit_def elevenLimit_def thirteenLimit_def mkJustObj_def
        upto.simps)

text \<open>The equations that evaluate the program on a concrete input.\<close>

lemmas eval_defs =
  noteIn_def noteHandler_def addNote_def removeNote_def mkNote_def noteCtrlOut_def
  justify_def fixedJustify_def resetJustPitches_def sortPitchesAscending_def
  adjustPitches_def adjustOuter.simps adjustInner.simps adjustPair_def lookupJust_def
  jsrem_def createInterval_def updateOrder_def meanAdjust_def offsetAllPitches_def
  allNoteMsgOut_def noteMsgOut_def justCompOut_def pitchListsOut_def offsetOctaveOut_def
  offsetListOut_def noteOffLoop.simps initState_def fiveLimit_def sevenLimit_def
  mkJustObj_def setLimit_def setMeanMode_def looseEq_def setIntensity_def Let_def

section \<open>Note handling\<close>

lemma noteOffLoop_end: "length xs \<le> i \<Longrightarrow> noteOffLoop p i xs = xs"
  by (subst noteOffLoop.simps) simp

lemma removeNote_append: "removeNote (length pre + i) (pre @ ys) = pre @ removeNote i ys"
  by (simp add: removeNote_def)

lemma noteOffLoop_append:
  "noteOffLoop p (length pre + i) (pre @ ys) = pre @ noteOffLoop p i ys"
proof (induction p i ys rule: noteOffLoop.induct)
  case (1 p i ys)
  show ?case
  proof (cases "i < length ys")
    case True
    note inr = True
    show ?thesis
    proof (cases "p = equalPitch (ys ! i)")
      case True
      have l: "noteOffLoop p (length pre + i) (pre @ ys)
                 = noteOffLoop p (length pre + (i + 1)) (pre @ removeNote i ys)"
        using inr True removeNote_append [of pre i ys]
        by (subst noteOffLoop.simps) (simp add: nth_append)
      have r: "noteOffLoop p i ys = noteOffLoop p (i + 1) (removeNote i ys)"
        using inr True by (subst noteOffLoop.simps) simp
      have "noteOffLoop p (length pre + (i + 1)) (pre @ removeNote i ys)
              = pre @ noteOffLoop p (i + 1) (removeNote i ys)"
        using "1.IH"(1) inr True by simp
      then show ?thesis by (simp only: l r)
    next
      case False
      have l: "noteOffLoop p (length pre + i) (pre @ ys)
                 = noteOffLoop p (length pre + (i + 1)) (pre @ ys)"
        using inr False by (subst noteOffLoop.simps) (simp add: nth_append)
      have r: "noteOffLoop p i ys = noteOffLoop p (i + 1) ys"
        using inr False by (subst noteOffLoop.simps) simp
      have "noteOffLoop p (length pre + (i + 1)) (pre @ ys) = pre @ noteOffLoop p (i + 1) ys"
        using "1.IH"(2) inr False by simp
      then show ?thesis by (simp only: l r)
    qed
  next
    case False
    then show ?thesis by (simp add: noteOffLoop_end)
  qed
qed

lemma noteOffLoop_skip:
  assumes "\<forall>n \<in> set pre. equalPitch n \<noteq> p"
  shows "i \<le> length pre \<Longrightarrow> noteOffLoop p i (pre @ ys) = noteOffLoop p (length pre) (pre @ ys)"
proof (induction "length pre - i" arbitrary: i)
  case 0
  then show ?case by simp
next
  case (Suc d)
  then have lt: "i < length pre" by simp
  then have "equalPitch ((pre @ ys) ! i) \<noteq> p"
    using assms by (simp add: nth_append)
  then have "noteOffLoop p i (pre @ ys) = noteOffLoop p (i + 1) (pre @ ys)"
    using lt by (subst noteOffLoop.simps) auto
  also have "\<dots> = noteOffLoop p (length pre) (pre @ ys)"
    using Suc lt by (intro Suc.hyps(1)) simp_all
  finally show ?case .
qed

lemma noteOffLoop_no_match:
  assumes "\<forall>n \<in> set xs. equalPitch n \<noteq> p"
  shows "noteOffLoop p 0 xs = xs"
  using noteOffLoop_skip [OF assms, of 0 "[]"] by (simp add: noteOffLoop_end)

lemma noteOffLoop_first_match:
  assumes "\<forall>n \<in> set pre. equalPitch n \<noteq> p" "equalPitch x = p"
  shows "noteOffLoop p 0 (pre @ x # rest) = pre @ noteOffLoop p 1 rest"
proof -
  have "noteOffLoop p 0 (pre @ x # rest) = noteOffLoop p (length pre) (pre @ x # rest)"
    using noteOffLoop_skip [OF assms(1), of 0] by simp
  also have "\<dots> = noteOffLoop p (length pre + 1) (pre @ rest)"
    using assms(2) by (subst noteOffLoop.simps) (simp add: removeNote_def)
  also have "\<dots> = pre @ noteOffLoop p 1 rest"
    by (rule noteOffLoop_append)
  finally show ?thesis .
qed

lemma noteOffLoop_sorted:
  assumes "sorted (map equalPitch xs)"
  shows "noteOffLoop q 0 xs =
     (case dropWhile (\<lambda>n. equalPitch n < q) xs of
        [] \<Rightarrow> xs
      | x # rest \<Rightarrow>
          if equalPitch x = q
          then takeWhile (\<lambda>n. equalPitch n < q) xs @ noteOffLoop q 1 rest
          else xs)"
proof -
  let ?P = "\<lambda>n. equalPitch n < q"
  let ?pre = "takeWhile ?P xs"
  have xs: "xs = ?pre @ dropWhile ?P xs" by simp
  have pre: "\<forall>n \<in> set ?pre. equalPitch n \<noteq> q"
    using set_takeWhileD [of _ ?P xs] by fastforce
  show ?thesis
  proof (cases "dropWhile ?P xs")
    case Nil
    then have "xs = ?pre" by (metis append_Nil2 takeWhile_dropWhile_id)
    then have "\<forall>n \<in> set xs. equalPitch n \<noteq> q" using pre by simp
    then have "noteOffLoop q 0 xs = xs" by (rule noteOffLoop_no_match)
    then show ?thesis unfolding Nil by simp
  next
    case (Cons x rest)
    have x: "\<not> equalPitch x < q" using hd_dropWhile [of ?P xs] Cons by simp
    have split: "xs = ?pre @ x # rest" using xs Cons by simp
    show ?thesis
    proof (cases "equalPitch x = q")
      case True
      have "noteOffLoop q 0 (?pre @ x # rest) = ?pre @ noteOffLoop q 1 rest"
        using pre True by (rule noteOffLoop_first_match)
      then show ?thesis using Cons True split by simp
    next
      case False
      have "sorted (map equalPitch (?pre @ x # rest))" using assms split by simp
      then have "\<forall>n \<in> set rest. equalPitch x \<le> equalPitch n"
        by (simp add: sorted_append)
      then have "\<forall>n \<in> set (x # rest). equalPitch n \<noteq> q"
        using x False by fastforce
      then have "\<forall>n \<in> set xs. equalPitch n \<noteq> q"
        using pre split by (metis Un_iff set_append)
      then show ?thesis using Cons False by (simp add: noteOffLoop_no_match)
    qed
  qed
qed

lemma length_tables [simp]:
  "length fiveLimit = 12" "length sevenLimit = 12" "length elevenLimit = 12"
  "length thirteenLimit = 12"
  by (simp_all add: fiveLimit_def sevenLimit_def elevenLimit_def thirteenLimit_def)

lemma allNoteMsgOut_map:
  "allNoteMsgOut s =
     map (\<lambda>n. NoteMessage (equalPitch n) ((justPitch n - of_int (equalPitch n)) * intensity s))
         (heldNotes s)
     @ justCompOut s"
  by (simp add: allNoteMsgOut_def noteMsgOut_def concat_map_singleton)

lemma justify_config:
  "justify s0 = Some s \<Longrightarrow>
     justSystem s = justSystem s0 \<and> meanMode s = meanMode s0 \<and> intensity s = intensity s0"
  by (auto simp: justify_def fixedJustify_def Let_def split: if_splits option.splits)

lemma justify_fixpoint:
  assumes "justify s0 = Some s" "length (justSystem s) = 12"
  shows "justify s = Some s"
proof -
  have cfg: "justSystem s = justSystem s0" "meanMode s = meanMode s0"
    using justify_config [OF assms(1)] by simp_all
  then have "justify s0
      = Some (s0\<lparr>heldNotes := passNotes (justSystem s0) (meanMode s0) (heldNotes s0)\<rparr>)"
    using assms(2) by (simp add: justify_passNotes)
  then have s: "s = s0\<lparr>heldNotes := passNotes (justSystem s0) (meanMode s0) (heldNotes s0)\<rparr>"
    using assms(1) by simp
  have hs: "heldNotes s = passNotes (justSystem s0) (meanMode s0) (heldNotes s0)"
    by (subst s) simp
  have "passNotes (justSystem s) (meanMode s) (heldNotes s) = heldNotes s"
    unfolding cfg hs by (rule passNotes_idem)
  then show ?thesis
    using justify_passNotes [OF assms(2)] by simp
qed


text \<open>
  C1. The claim: a note-off whose pitch is held removes exactly one Note, the first in array
  order with that pitch, also when several held Notes share the pitch. The loop of
  \<open>noteHandler\<close> has no \<open>break\<close>: after a removal it goes on, skipping the element that moved
  into the freed index. With three held Notes of pitch 60 a single note-off removes the
  first and the third, and the Note of velocity 90 alone stays.
\<close>

theorem noteOff_three_unisons_removes_two:
  "noteIn 60 0
     (initState\<lparr>heldNotes :=
        [\<lparr>equalPitch = 60, justPitch = 60, order = 11, velocity = 100\<rparr>,
         \<lparr>equalPitch = 60, justPitch = 60, order = 11, velocity = 90\<rparr>,
         \<lparr>equalPitch = 60, justPitch = 60, order = 11, velocity = 80\<rparr>]\<rparr>)
   = Some (initState\<lparr>heldNotes :=
             [\<lparr>equalPitch = 60, justPitch = 60, order = - 1, velocity = 90\<rparr>]\<rparr>,
           [NoteControl 60 0, NoteMessage 60 0, JustPitches [60], EqualPitches [60],
            OffsetOctave [0, 0, 0, 0, 0, 0, 0, 0, 0, 0, 0, 0], OffsetList [0], Done])"
  by (simp add: eval_defs)

text \<open>The state of that theorem is the one reached from the initial state by three
  note-ons of pitch 60.\<close>

lemma three_unisons_reached:
  "map_option fst (noteIn 60 100 initState)
     = Some (initState\<lparr>heldNotes :=
         [\<lparr>equalPitch = 60, justPitch = 60, order = - 1, velocity = 100\<rparr>]\<rparr>)"
  "map_option fst (noteIn 60 90 (initState\<lparr>heldNotes :=
         [\<lparr>equalPitch = 60, justPitch = 60, order = - 1, velocity = 100\<rparr>]\<rparr>))
     = Some (initState\<lparr>heldNotes :=
         [\<lparr>equalPitch = 60, justPitch = 60, order = 11, velocity = 100\<rparr>,
          \<lparr>equalPitch = 60, justPitch = 60, order = 11, velocity = 90\<rparr>]\<rparr>)"
  "map_option fst (noteIn 60 80 (initState\<lparr>heldNotes :=
         [\<lparr>equalPitch = 60, justPitch = 60, order = 11, velocity = 100\<rparr>,
          \<lparr>equalPitch = 60, justPitch = 60, order = 11, velocity = 90\<rparr>]\<rparr>))
     = Some (initState\<lparr>heldNotes :=
         [\<lparr>equalPitch = 60, justPitch = 60, order = 11, velocity = 100\<rparr>,
          \<lparr>equalPitch = 60, justPitch = 60, order = 11, velocity = 90\<rparr>,
          \<lparr>equalPitch = 60, justPitch = 60, order = 11, velocity = 80\<rparr>]\<rparr>)"
  by (simp_all add: eval_defs)

section \<open>The pairwise adjustment\<close>

text \<open>
  C2. On the sorted array of a retuning pass, \<open>adjustPitches\<close> visits the pairs with the
  low index ascending and, for each, the high index ascending from \<open>low + 1\<close>; it adjusts
  a pair exactly when the rank of the entry at the interval modulo 12 exceeds the applied
  rank of the high or of the low note; it then moves the note of strictly lower applied
  rank relative to the other note's current working pitch by the compound just interval
  (the high note on a tie), and raises both applied ranks to the maximum of the old rank
  and the entry's rank. No lookup fails.
\<close>

theorem adjustPitches_refines_spec:
  assumes "sorted (map equalPitch notes)" and "length tbl = 12"
  shows "adjustPitches tbl notes = Some (specPairwise tbl notes)"
  using assms by (rule adjustPitches_spec)

theorem adjustPitches_refines_spec_witness:
  "sorted (map equalPitch [mkNote 60 100, mkNote 64 90, mkNote 67 80])
   \<and> length fiveLimit = 12
   \<and> adjustPitches fiveLimit [mkNote 60 100, mkNote 64 90, mkNote 67 80]
       = Some (specPairwise fiveLimit [mkNote 60 100, mkNote 64 90, mkNote 67 80])
   \<and> specPairwise fiveLimit [mkNote 60 100, mkNote 64 90, mkNote 67 80]
       = [\<lparr>equalPitch = 60, justPitch = 60, order = 8, velocity = 100\<rparr>,
          \<lparr>equalPitch = 64, justPitch = 3193 / 50, order = 10, velocity = 90\<rparr>,
          \<lparr>equalPitch = 67, justPitch = 3351 / 50, order = 10, velocity = 80\<rparr>]"
proof -
  have h1: "sorted (map equalPitch [mkNote 60 100, mkNote 64 90, mkNote 67 80])"
    by (simp add: mkNote_def)
  have h2: "length fiveLimit = 12" by simp
  have v: "adjustPitches fiveLimit [mkNote 60 100, mkNote 64 90, mkNote 67 80]
       = Some [\<lparr>equalPitch = 60, justPitch = 60, order = 8, velocity = 100\<rparr>,
          \<lparr>equalPitch = 64, justPitch = 3193 / 50, order = 10, velocity = 90\<rparr>,
          \<lparr>equalPitch = 67, justPitch = 3351 / 50, order = 10, velocity = 80\<rparr>]"
    by (simp add: eval_defs)
  show ?thesis
    using adjustPitches_refines_spec [OF h1 h2] h1 h2 v by simp
qed

section \<open>Properties of a retuning pass\<close>

text \<open>
  C3. With at least one held note and mean-centering enabled, the retuning pass
  completes, and afterwards the sum of the working pitches equals the sum of the original
  pitches, which the pass leaves as they were (over exact rationals).
\<close>

theorem mean_centering_sum:
  assumes "heldNotes s \<noteq> []" and "meanMode s" and "length (justSystem s) = 12"
  shows "\<exists>s'. justify s = Some s'
           \<and> sum_list (map justPitch (heldNotes s')) = of_int (sum_list (map equalPitch (heldNotes s')))
           \<and> mset (map equalPitch (heldNotes s')) = mset (map equalPitch (heldNotes s))"
proof -
  let ?hn = "passNotes (justSystem s) (meanMode s) (heldNotes s)"
  have m: "mset (map equalPitch ?hn) = mset (map equalPitch (heldNotes s))"
    by (rule mset_equalPitch_passNotes)
  then have "sum_list (map equalPitch ?hn) = sum_list (map equalPitch (heldNotes s))"
    by (metis sum_mset_sum_list)
  then have "sum_list (map justPitch ?hn) = of_int (sum_list (map equalPitch ?hn))"
    using sum_passNotes [OF assms(1), of "justSystem s"] assms(2) by simp
  then show ?thesis
    using justify_passNotes [OF assms(3)] m by simp
qed

theorem mean_centering_sum_witness:
  "heldNotes (initState\<lparr>heldNotes := [mkNote 67 1, mkNote 60 2, mkNote 64 3]\<rparr>) \<noteq> []
   \<and> meanMode (initState\<lparr>heldNotes := [mkNote 67 1, mkNote 60 2, mkNote 64 3]\<rparr>)
   \<and> length (justSystem (initState\<lparr>heldNotes := [mkNote 67 1, mkNote 60 2, mkNote 64 3]\<rparr>)) = 12
   \<and> (\<exists>s'. justify (initState\<lparr>heldNotes := [mkNote 67 1, mkNote 60 2, mkNote 64 3]\<rparr>) = Some s'
         \<and> sum_list (map justPitch (heldNotes s')) = 191
         \<and> map equalPitch (heldNotes s') = [60, 64, 67])"
proof -
  let ?s = "initState\<lparr>heldNotes := [mkNote 67 1, mkNote 60 2, mkNote 64 3]\<rparr>"
  have h1: "heldNotes ?s \<noteq> []" by simp
  have h2: "meanMode ?s" by (simp add: initState_def)
  have h3: "length (justSystem ?s) = 12" by (simp add: initState_def)
  have v: "map_option (map equalPitch \<circ> heldNotes) (justify ?s) = Some [60, 64, 67]"
    by (simp add: eval_defs)
  show ?thesis
    using mean_centering_sum [OF h1 h2 h3] h1 h2 h3 v by auto
qed

text \<open>
  C7. A retuning pass run on the state that a retuning pass has left, with no event in
  between, returns that state unchanged: every held note has the same working pitch
  after the second pass as after the first.
\<close>

theorem retuning_pass_idempotent:
  assumes "length (justSystem s) = 12"
  shows "\<exists>s1. justify s = Some s1 \<and> justify s1 = Some s1"
proof -
  let ?s1 = "s\<lparr>heldNotes := passNotes (justSystem s) (meanMode s) (heldNotes s)\<rparr>"
  have 1: "justify s = Some ?s1" using assms by (rule justify_passNotes)
  have "length (justSystem ?s1) = 12" using assms by simp
  then have "justify ?s1 = Some ?s1" using 1 justify_fixpoint by blast
  then show ?thesis using 1 by blast
qed

theorem retuning_pass_idempotent_witness:
  "length (justSystem (initState\<lparr>heldNotes := [mkNote 67 1, mkNote 60 2, mkNote 64 3]\<rparr>)) = 12
   \<and> justify (initState\<lparr>heldNotes := [mkNote 67 1, mkNote 60 2, mkNote 64 3]\<rparr>)
       = Some (initState\<lparr>heldNotes :=
           [\<lparr>equalPitch = 60, justPitch = 6004 / 100, order = 8, velocity = 2\<rparr>,
            \<lparr>equalPitch = 64, justPitch = 6390 / 100, order = 10, velocity = 3\<rparr>,
            \<lparr>equalPitch = 67, justPitch = 6706 / 100, order = 10, velocity = 1\<rparr>]\<rparr>)
   \<and> justify (initState\<lparr>heldNotes :=
           [\<lparr>equalPitch = 60, justPitch = 6004 / 100, order = 8, velocity = 2\<rparr>,
            \<lparr>equalPitch = 64, justPitch = 6390 / 100, order = 10, velocity = 3\<rparr>,
            \<lparr>equalPitch = 67, justPitch = 6706 / 100, order = 10, velocity = 1\<rparr>]\<rparr>)
       = Some (initState\<lparr>heldNotes :=
           [\<lparr>equalPitch = 60, justPitch = 6004 / 100, order = 8, velocity = 2\<rparr>,
            \<lparr>equalPitch = 64, justPitch = 6390 / 100, order = 10, velocity = 3\<rparr>,
            \<lparr>equalPitch = 67, justPitch = 6706 / 100, order = 10, velocity = 1\<rparr>]\<rparr>)"
proof -
  let ?s = "initState\<lparr>heldNotes := [mkNote 67 1, mkNote 60 2, mkNote 64 3]\<rparr>"
  have h: "length (justSystem ?s) = 12" by (simp add: initState_def)
  have v: "justify ?s = Some (initState\<lparr>heldNotes :=
           [\<lparr>equalPitch = 60, justPitch = 6004 / 100, order = 8, velocity = 2\<rparr>,
            \<lparr>equalPitch = 64, justPitch = 6390 / 100, order = 10, velocity = 3\<rparr>,
            \<lparr>equalPitch = 67, justPitch = 6706 / 100, order = 10, velocity = 1\<rparr>]\<rparr>)"
    by (simp add: eval_defs)
  show ?thesis
    using retuning_pass_idempotent [OF h] h v by auto
qed

text \<open>
  C4. After a completed retuning pass, \<open>setIntensity v\<close> returns, stores \<open>v\<close>, leaves every
  held note as it is (working pitch included: no pair meets the tie-break condition
  again), and sends for every held note the pitch message with the bend
  \<open>(workingPitch - originalPitch) * v\<close>.
\<close>

theorem setIntensity_keeps_pitches:
  assumes "length (justSystem s) = 12"
  shows "\<exists>s'. justify s = Some s'
           \<and> setIntensity v s'
               = Some (s'\<lparr>intensity := v\<rparr>,
                       map (\<lambda>n. NoteMessage (equalPitch n)
                                   ((justPitch n - of_int (equalPitch n)) * v))
                           (heldNotes s')
                       @ justCompOut (s'\<lparr>intensity := v\<rparr>))"
proof -
  let ?hn = "passNotes (justSystem s) (meanMode s) (heldNotes s)"
  let ?s' = "s\<lparr>heldNotes := ?hn\<rparr>"
  have 1: "justify s = Some ?s'" using assms by (rule justify_passNotes)
  have a: "adjustPitches (justSystem s) ?hn = Some ?hn"
    using assms by (rule adjustPitches_passNotes)
  have eq: "?s'\<lparr>intensity := v, heldNotes := ?hn\<rparr> = ?s'\<lparr>intensity := v\<rparr>"
    by (cases s) simp
  have "setIntensity v ?s'
      = Some (?s'\<lparr>intensity := v, heldNotes := ?hn\<rparr>,
              allNoteMsgOut (?s'\<lparr>intensity := v, heldNotes := ?hn\<rparr>))"
    using a by (simp add: setIntensity_def Let_def)
  then have "setIntensity v ?s'
      = Some (?s'\<lparr>intensity := v\<rparr>, allNoteMsgOut (?s'\<lparr>intensity := v\<rparr>))"
    by (simp only: eq)
  then have "setIntensity v ?s'
      = Some (?s'\<lparr>intensity := v\<rparr>,
              map (\<lambda>n. NoteMessage (equalPitch n) ((justPitch n - of_int (equalPitch n)) * v))
                  (heldNotes ?s')
              @ justCompOut (?s'\<lparr>intensity := v\<rparr>))"
    by (simp add: allNoteMsgOut_map)
  then show ?thesis
    using 1 by blast
qed

theorem setIntensity_keeps_pitches_witness:
  "length (justSystem (initState\<lparr>heldNotes := [mkNote 60 100, mkNote 64 100]\<rparr>)) = 12
   \<and> justify (initState\<lparr>heldNotes := [mkNote 60 100, mkNote 64 100]\<rparr>)
       = Some (initState\<lparr>heldNotes :=
           [\<lparr>equalPitch = 60, justPitch = 6007 / 100, order = 2, velocity = 100\<rparr>,
            \<lparr>equalPitch = 64, justPitch = 6393 / 100, order = 2, velocity = 100\<rparr>]\<rparr>)
   \<and> setIntensity (1 / 2) (initState\<lparr>heldNotes :=
           [\<lparr>equalPitch = 60, justPitch = 6007 / 100, order = 2, velocity = 100\<rparr>,
            \<lparr>equalPitch = 64, justPitch = 6393 / 100, order = 2, velocity = 100\<rparr>]\<rparr>)
       = Some (initState\<lparr>intensity := 1 / 2, heldNotes :=
           [\<lparr>equalPitch = 60, justPitch = 6007 / 100, order = 2, velocity = 100\<rparr>,
            \<lparr>equalPitch = 64, justPitch = 6393 / 100, order = 2, velocity = 100\<rparr>]\<rparr>,
               [NoteMessage 60 (7 / 200), NoteMessage 64 (- (7 / 200)),
                JustPitches [12007 / 200, 12793 / 200], EqualPitches [60, 64],
                OffsetOctave [7 / 200, 0, 0, 0, - (7 / 200), 0, 0, 0, 0, 0, 0, 0],
                OffsetList [7 / 200, - (7 / 200)]])"
proof -
  let ?s = "initState\<lparr>heldNotes := [mkNote 60 100, mkNote 64 100]\<rparr>"
  have h: "length (justSystem ?s) = 12" by (simp add: initState_def)
  have v: "justify ?s = Some (initState\<lparr>heldNotes :=
           [\<lparr>equalPitch = 60, justPitch = 6007 / 100, order = 2, velocity = 100\<rparr>,
            \<lparr>equalPitch = 64, justPitch = 6393 / 100, order = 2, velocity = 100\<rparr>]\<rparr>)"
    by (simp add: eval_defs)
  show ?thesis
    using setIntensity_keeps_pitches [OF h, of "1 / 2"] h
    unfolding v
    by (simp add: initState_def justCompOut_def pitchListsOut_def offsetOctaveOut_def
        offsetListOut_def jsrem_def Let_def)
qed

text \<open>
  C10. A note event that is processed leaves the array of held notes itself sorted
  ascending by original pitch (trivially so with fewer than two notes). Hence the pitch
  messages, the lists of just and equal pitches and the offset list, all taken from the
  array in its order, are in ascending pitch order; and a later note-off for a pitch \<open>q\<close>
  passes over the notes below \<open>q\<close> and removes the first note of pitch \<open>q\<close> in that
  sorted order, the loop going on at index 1 of what follows it.
\<close>

theorem noteIn_leaves_sorted:
  assumes "length (justSystem s) = 12" and "noteIn pitch vel s = Some (s', out)"
  shows "sorted (map equalPitch (heldNotes s'))
     \<and> out = [NoteControl pitch vel]
           @ map (\<lambda>n. NoteMessage (equalPitch n)
                        ((justPitch n - of_int (equalPitch n)) * intensity s')) (heldNotes s')
           @ [JustPitches (map (\<lambda>n. (justPitch n - of_int (equalPitch n)) * intensity s'
                                       + of_int (equalPitch n)) (heldNotes s')),
              EqualPitches (map equalPitch (heldNotes s'))]
           @ offsetOctaveOut s'
           @ [OffsetList (map (\<lambda>n. (justPitch n - of_int (equalPitch n)) * intensity s')
                              (heldNotes s')),
              Done]
     \<and> noteHandler q 0 (heldNotes s')
         = (case dropWhile (\<lambda>n. equalPitch n < q) (heldNotes s') of
              [] \<Rightarrow> heldNotes s'
            | x # rest \<Rightarrow>
                if equalPitch x = q
                then takeWhile (\<lambda>n. equalPitch n < q) (heldNotes s') @ noteOffLoop q 1 rest
                else heldNotes s')"
proof -
  let ?s1 = "s\<lparr>heldNotes := noteHandler pitch vel (heldNotes s)\<rparr>"
  have len: "length (justSystem ?s1) = 12" using assms(1) by simp
  have j: "justify ?s1
      = Some (?s1\<lparr>heldNotes := passNotes (justSystem ?s1) (meanMode ?s1) (heldNotes ?s1)\<rparr>)"
    using len by (rule justify_passNotes)
  have s': "s' = ?s1\<lparr>heldNotes := passNotes (justSystem ?s1) (meanMode ?s1) (heldNotes ?s1)\<rparr>"
    and out: "out = noteCtrlOut pitch vel @ allNoteMsgOut s' @ [Done]"
    using assms(2) unfolding noteIn_def Let_def j by auto
  have "heldNotes s' = passNotes (justSystem ?s1) (meanMode ?s1) (heldNotes ?s1)"
    by (subst s') simp
  then have srt: "sorted (map equalPitch (heldNotes s'))"
    by (simp only: sorted_passNotes)
  have off: "noteHandler q 0 (heldNotes s') = noteOffLoop q 0 (heldNotes s')"
    by (simp add: noteHandler_def)
  show ?thesis
    unfolding off noteOffLoop_sorted [OF srt] out
    using srt
    by (simp add: allNoteMsgOut_map noteCtrlOut_def justCompOut_def pitchListsOut_def
        offsetListOut_def Let_def)
qed

theorem noteIn_leaves_sorted_witness:
  "length (justSystem (initState\<lparr>heldNotes :=
        [\<lparr>equalPitch = 60, justPitch = 60 - 1 / 50, order = 8, velocity = 100\<rparr>,
         \<lparr>equalPitch = 67, justPitch = 67, order = 8, velocity = 100\<rparr>]\<rparr>)) = 12
   \<and> noteIn 62 70 (initState\<lparr>heldNotes :=
        [\<lparr>equalPitch = 60, justPitch = 60 - 1 / 50, order = 8, velocity = 100\<rparr>,
         \<lparr>equalPitch = 67, justPitch = 67, order = 8, velocity = 100\<rparr>]\<rparr>)
      = Some (initState\<lparr>heldNotes :=
                [\<lparr>equalPitch = 60, justPitch = 2999 / 50, order = 8, velocity = 100\<rparr>,
                 \<lparr>equalPitch = 62, justPitch = 3101 / 50, order = 9, velocity = 70\<rparr>,
                 \<lparr>equalPitch = 67, justPitch = 67, order = 9, velocity = 100\<rparr>]\<rparr>,
              [NoteControl 62 70, NoteMessage 60 (- (3 / 200)), NoteMessage 62 (3 / 200),
               NoteMessage 67 0, JustPitches [11997 / 200, 12403 / 200, 67],
               EqualPitches [60, 62, 67],
               OffsetOctave [- (3 / 200), 0, 3 / 200, 0, 0, 0, 0, 0, 0, 0, 0, 0],
               OffsetList [- (3 / 200), 3 / 200, 0], Done])
   \<and> sorted (map equalPitch
        [\<lparr>equalPitch = 60, justPitch = 2999 / 50, order = 8, velocity = 100\<rparr>,
         \<lparr>equalPitch = 62, justPitch = 3101 / 50, order = 9, velocity = 70\<rparr>,
         \<lparr>equalPitch = 67, justPitch = 67, order = 9, velocity = 100\<rparr>])
   \<and> noteHandler 62 0
        [\<lparr>equalPitch = 60, justPitch = 2999 / 50, order = 8, velocity = 100\<rparr>,
         \<lparr>equalPitch = 62, justPitch = 3101 / 50, order = 9, velocity = 70\<rparr>,
         \<lparr>equalPitch = 67, justPitch = 67, order = 9, velocity = 100\<rparr>]
      = [\<lparr>equalPitch = 60, justPitch = 2999 / 50, order = 8, velocity = 100\<rparr>,
         \<lparr>equalPitch = 67, justPitch = 67, order = 9, velocity = 100\<rparr>]"
proof -
  let ?s = "initState\<lparr>heldNotes :=
        [\<lparr>equalPitch = 60, justPitch = 60 - 1 / 50, order = 8, velocity = 100\<rparr>,
         \<lparr>equalPitch = 67, justPitch = 67, order = 8, velocity = 100\<rparr>]\<rparr>"
  have h1: "length (justSystem ?s) = 12" by (simp add: initState_def)
  have h2: "noteIn 62 70 ?s
      = Some (initState\<lparr>heldNotes :=
                [\<lparr>equalPitch = 60, justPitch = 2999 / 50, order = 8, velocity = 100\<rparr>,
                 \<lparr>equalPitch = 62, justPitch = 3101 / 50, order = 9, velocity = 70\<rparr>,
                 \<lparr>equalPitch = 67, justPitch = 67, order = 9, velocity = 100\<rparr>]\<rparr>,
              [NoteControl 62 70, NoteMessage 60 (- (3 / 200)), NoteMessage 62 (3 / 200),
               NoteMessage 67 0, JustPitches [11997 / 200, 12403 / 200, 67],
               EqualPitches [60, 62, 67],
               OffsetOctave [- (3 / 200), 0, 3 / 200, 0, 0, 0, 0, 0, 0, 0, 0, 0],
               OffsetList [- (3 / 200), 3 / 200, 0], Done])"
    by (simp add: eval_defs)
  show ?thesis
    using noteIn_leaves_sorted [OF h1 h2, of 62] h1 h2
    by (simp add: noteOffLoop.simps)
qed


section \<open>Configuration commands\<close>

text \<open>
  C5 as claimed fails. With the major third 60, 64 held and tuned under mean-centering
  (working pitches 60.07 and 63.93), \<open>setMeanMode(false)\<close> leaves the held notes as they
  are, whereas a retuning pass under the new mode gives 60 and 63.86.
\<close>

theorem setMeanMode_retunes_counterexample:
  "heldNotes (fst (setMeanMode (JBool False) (initState\<lparr>heldNotes :=
        [\<lparr>equalPitch = 60, justPitch = 6007 / 100, order = 2, velocity = 100\<rparr>,
         \<lparr>equalPitch = 64, justPitch = 6393 / 100, order = 2, velocity = 100\<rparr>]\<rparr>)))
     = [\<lparr>equalPitch = 60, justPitch = 6007 / 100, order = 2, velocity = 100\<rparr>,
        \<lparr>equalPitch = 64, justPitch = 6393 / 100, order = 2, velocity = 100\<rparr>]
   \<and> map_option heldNotes (justify (fst (setMeanMode (JBool False) (initState\<lparr>heldNotes :=
        [\<lparr>equalPitch = 60, justPitch = 6007 / 100, order = 2, velocity = 100\<rparr>,
         \<lparr>equalPitch = 64, justPitch = 6393 / 100, order = 2, velocity = 100\<rparr>]\<rparr>))))
     = Some [\<lparr>equalPitch = 60, justPitch = 60, order = 2, velocity = 100\<rparr>,
             \<lparr>equalPitch = 64, justPitch = 3193 / 50, order = 2, velocity = 100\<rparr>]"
  by (simp add: eval_defs)

text \<open>
  C5, amended. \<open>setMeanMode\<close> with \<open>true\<close>, \<open>false\<close>, 1 or 0 only stores the new mode: it
  runs no retuning pass, sends nothing and leaves every held note as it is. The new mode
  takes effect in the next retuning pass.
\<close>

theorem setMeanMode_stores_flag:
  assumes "length (justSystem s) = 12"
  shows "setMeanMode (JBool c) s = (s\<lparr>meanMode := c\<rparr>, [])
     \<and> setMeanMode (JNum (if c then 1 else 0)) s = (s\<lparr>meanMode := c\<rparr>, [])
     \<and> heldNotes (fst (setMeanMode (JBool c) s)) = heldNotes s
     \<and> justify (s\<lparr>meanMode := c\<rparr>)
         = Some (s\<lparr>meanMode := c, heldNotes := passNotes (justSystem s) c (heldNotes s)\<rparr>)"
proof -
  have "length (justSystem (s\<lparr>meanMode := c\<rparr>)) = 12" using assms by simp
  then have "justify (s\<lparr>meanMode := c\<rparr>)
       = Some (s\<lparr>meanMode := c, heldNotes := passNotes (justSystem s) c (heldNotes s)\<rparr>)"
    using justify_passNotes [of "s\<lparr>meanMode := c\<rparr>"] by simp
  then show ?thesis
    by (cases c) (simp_all add: setMeanMode_def looseEq_def)
qed

theorem setMeanMode_stores_flag_witness:
  "length (justSystem (initState\<lparr>heldNotes :=
        [\<lparr>equalPitch = 60, justPitch = 6007 / 100, order = 2, velocity = 100\<rparr>,
         \<lparr>equalPitch = 64, justPitch = 6393 / 100, order = 2, velocity = 100\<rparr>]\<rparr>)) = 12
   \<and> setMeanMode (JBool False) (initState\<lparr>heldNotes :=
        [\<lparr>equalPitch = 60, justPitch = 6007 / 100, order = 2, velocity = 100\<rparr>,
         \<lparr>equalPitch = 64, justPitch = 6393 / 100, order = 2, velocity = 100\<rparr>]\<rparr>) = ((initState\<lparr>heldNotes :=
        [\<lparr>equalPitch = 60, justPitch = 6007 / 100, order = 2, velocity = 100\<rparr>,
         \<lparr>equalPitch = 64, justPitch = 6393 / 100, order = 2, velocity = 100\<rparr>]\<rparr>)\<lparr>meanMode := False\<rparr>, [])
   \<and> setMeanMode (JNum 0) (initState\<lparr>heldNotes :=
        [\<lparr>equalPitch = 60, justPitch = 6007 / 100, order = 2, velocity = 100\<rparr>,
         \<lparr>equalPitch = 64, justPitch = 6393 / 100, order = 2, velocity = 100\<rparr>]\<rparr>) = ((initState\<lparr>heldNotes :=
        [\<lparr>equalPitch = 60, justPitch = 6007 / 100, order = 2, velocity = 100\<rparr>,
         \<lparr>equalPitch = 64, justPitch = 6393 / 100, order = 2, velocity = 100\<rparr>]\<rparr>)\<lparr>meanMode := False\<rparr>, [])
   \<and> justify ((initState\<lparr>heldNotes :=
        [\<lparr>equalPitch = 60, justPitch = 6007 / 100, order = 2, velocity = 100\<rparr>,
         \<lparr>equalPitch = 64, justPitch = 6393 / 100, order = 2, velocity = 100\<rparr>]\<rparr>)\<lparr>meanMode := False\<rparr>)
       = Some (initState\<lparr>meanMode := False, heldNotes :=
            [\<lparr>equalPitch = 60, justPitch = 60, order = 2, velocity = 100\<rparr>,
             \<lparr>equalPitch = 64, justPitch = 3193 / 50, order = 2, velocity = 100\<rparr>]\<rparr>)"
proof -
  have h: "length (justSystem (initState\<lparr>heldNotes :=
        [\<lparr>equalPitch = 60, justPitch = 6007 / 100, order = 2, velocity = 100\<rparr>,
         \<lparr>equalPitch = 64, justPitch = 6393 / 100, order = 2, velocity = 100\<rparr>]\<rparr>)) = 12" by (simp add: initState_def)
  have v: "justify ((initState\<lparr>heldNotes :=
        [\<lparr>equalPitch = 60, justPitch = 6007 / 100, order = 2, velocity = 100\<rparr>,
         \<lparr>equalPitch = 64, justPitch = 6393 / 100, order = 2, velocity = 100\<rparr>]\<rparr>)\<lparr>meanMode := False\<rparr>)
       = Some (initState\<lparr>meanMode := False, heldNotes :=
            [\<lparr>equalPitch = 60, justPitch = 60, order = 2, velocity = 100\<rparr>,
             \<lparr>equalPitch = 64, justPitch = 3193 / 50, order = 2, velocity = 100\<rparr>]\<rparr>)"
    by (simp add: eval_defs)
  show ?thesis
    using setMeanMode_stores_flag [OF h, of False] h v by simp
qed

text \<open>
  C6 as claimed fails. With 60 and 70 held under the 5-limit table, \<open>setLimit(7)\<close> runs
  the retuning pass (the working pitches change from 60.02 and 69.98 to 60.155 and
  69.845) and sends no message at all.
\<close>

theorem setLimit_emits_counterexample:
  "setLimit 7
     (initState\<lparr>heldNotes :=
        [\<lparr>equalPitch = 60, justPitch = 3001 / 50, order = 7, velocity = 100\<rparr>,
         \<lparr>equalPitch = 70, justPitch = 3499 / 50, order = 7, velocity = 100\<rparr>]\<rparr>)
   = Some (initState\<lparr>justSystem := sevenLimit, heldNotes :=
             [\<lparr>equalPitch = 60, justPitch = 12031 / 200, order = 7, velocity = 100\<rparr>,
              \<lparr>equalPitch = 70, justPitch = 13969 / 200, order = 7, velocity = 100\<rparr>]\<rparr>,
           [])"
  by (simp add: eval_defs)

text \<open>
  C6, amended. After the retuning pass of every note event, a pitch message pairing the
  original pitch with \<open>(workingPitch - originalPitch) * intensity\<close> is sent for every held
  note, in array order, after the control message and before the diagnostics and the
  completion signal. \<open>setLimit\<close> selects the table of a valid limit (and keeps the table
  for any other argument), runs the retuning pass under that table, which renews the
  working pitches, and sends no pitch message: the only thing it sends is the error
  report for an invalid limit.
\<close>

theorem pitch_messages_after_note_event:
  assumes "length (justSystem s) = 12"
  shows "(\<exists>s'. justify (s\<lparr>heldNotes := noteHandler pitch vel (heldNotes s)\<rparr>) = Some s'
            \<and> noteIn pitch vel s
                = Some (s', [NoteControl pitch vel]
                            @ map (\<lambda>n. NoteMessage (equalPitch n)
                                     ((justPitch n - of_int (equalPitch n)) * intensity s'))
                                  (heldNotes s')
                            @ justCompOut s' @ [Done]))
     \<and> (\<exists>s'. justify (s\<lparr>justSystem :=
                          (if val = 5 then fiveLimit else if val = 7 then sevenLimit
                           else if val = 11 then elevenLimit
                           else if val = 13 then thirteenLimit else justSystem s)\<rparr>) = Some s'
            \<and> heldNotes s'
                = passNotes (if val = 5 then fiveLimit else if val = 7 then sevenLimit
                             else if val = 11 then elevenLimit
                             else if val = 13 then thirteenLimit else justSystem s)
                    (meanMode s) (heldNotes s)
            \<and> setLimit val s
                = Some (s', if val = 5 \<or> val = 7 \<or> val = 11 \<or> val = 13 then []
                            else [PostError ''Tuning not available.\<newline>Valid arguments: 5, 7, 11, 13'']))"
proof -
  let ?s1 = "s\<lparr>heldNotes := noteHandler pitch vel (heldNotes s)\<rparr>"
  have "length (justSystem ?s1) = 12" using assms by simp
  then obtain s' where j: "justify ?s1 = Some s'"
    using justify_passNotes by blast
  have a: "\<exists>s'. justify ?s1 = Some s'
            \<and> noteIn pitch vel s
                = Some (s', [NoteControl pitch vel]
                            @ map (\<lambda>n. NoteMessage (equalPitch n)
                                     ((justPitch n - of_int (equalPitch n)) * intensity s'))
                                  (heldNotes s')
                            @ justCompOut s' @ [Done])"
    using j by (simp add: noteIn_def Let_def noteCtrlOut_def allNoteMsgOut_map)
  let ?tbl = "if val = 5 then fiveLimit else if val = 7 then sevenLimit
              else if val = 11 then elevenLimit
              else if val = 13 then thirteenLimit else justSystem s"
  let ?s2 = "s\<lparr>justSystem := ?tbl\<rparr>"
  let ?s3 = "?s2\<lparr>heldNotes := passNotes ?tbl (meanMode s) (heldNotes s)\<rparr>"
  have "length (justSystem ?s2) = 12" using assms by simp
  then have "justify ?s2
      = Some (?s2\<lparr>heldNotes := passNotes (justSystem ?s2) (meanMode ?s2) (heldNotes ?s2)\<rparr>)"
    by (rule justify_passNotes)
  then have j2: "justify ?s2 = Some ?s3" by simp
  have h2: "heldNotes ?s3 = passNotes ?tbl (meanMode s) (heldNotes s)" by simp
  have keep: "s\<lparr>justSystem := justSystem s\<rparr> = s" by simp
  have "setLimit val s
      = (case justify ?s2 of None \<Rightarrow> None
         | Some s2 \<Rightarrow> Some (s2, if val = 5 \<or> val = 7 \<or> val = 11 \<or> val = 13 then []
                              else [PostError ''Tuning not available.\<newline>Valid arguments: 5, 7, 11, 13'']))"
    by (simp add: setLimit_def)
  then have l: "setLimit val s
      = Some (?s3, if val = 5 \<or> val = 7 \<or> val = 11 \<or> val = 13 then [] else [PostError ''Tuning not available.\<newline>Valid arguments: 5, 7, 11, 13''])"
    by (simp only: j2 option.case)
  have b: "\<exists>s'. justify ?s2 = Some s'
            \<and> heldNotes s' = passNotes ?tbl (meanMode s) (heldNotes s)
            \<and> setLimit val s
                = Some (s', if val = 5 \<or> val = 7 \<or> val = 11 \<or> val = 13 then [] else [PostError ''Tuning not available.\<newline>Valid arguments: 5, 7, 11, 13''])"
    using j2 h2 l by blast
  show ?thesis using a b by blast
qed

theorem pitch_messages_after_note_event_witness:
  "length (justSystem (initState\<lparr>heldNotes :=
        [\<lparr>equalPitch = 60, justPitch = 1201 / 20, order = 3, velocity = 100\<rparr>,
         \<lparr>equalPitch = 66, justPitch = 1319 / 20, order = 3, velocity = 100\<rparr>]\<rparr>)) = 12
   \<and> noteIn 62 70 (initState\<lparr>heldNotes :=
        [\<lparr>equalPitch = 60, justPitch = 1201 / 20, order = 3, velocity = 100\<rparr>,
         \<lparr>equalPitch = 66, justPitch = 1319 / 20, order = 3, velocity = 100\<rparr>]\<rparr>)
      = Some (initState\<lparr>heldNotes :=
                [\<lparr>equalPitch = 60, justPitch = 3001 / 50, order = 6, velocity = 100\<rparr>,
                 \<lparr>equalPitch = 62, justPitch = 3103 / 50, order = 6, velocity = 70\<rparr>,
                 \<lparr>equalPitch = 66, justPitch = 1648 / 25, order = 3, velocity = 100\<rparr>]\<rparr>,
              [NoteControl 62 70, NoteMessage 60 (3 / 200), NoteMessage 62 (9 / 200),
               NoteMessage 66 (- (3 / 50)), JustPitches [12003 / 200, 12409 / 200, 3297 / 50],
               EqualPitches [60, 62, 66],
               OffsetOctave [3 / 200, 0, 9 / 200, 0, 0, 0, - (3 / 50), 0, 0, 0, 0, 0],
               OffsetList [3 / 200, 9 / 200, - (3 / 50)], Done])
   \<and> setLimit 11 (initState\<lparr>heldNotes :=
        [\<lparr>equalPitch = 60, justPitch = 1201 / 20, order = 3, velocity = 100\<rparr>,
         \<lparr>equalPitch = 66, justPitch = 1319 / 20, order = 3, velocity = 100\<rparr>]\<rparr>)
      = Some (initState\<lparr>justSystem := elevenLimit, heldNotes :=
                [\<lparr>equalPitch = 60, justPitch = 12049 / 200, order = 10, velocity = 100\<rparr>,
                 \<lparr>equalPitch = 66, justPitch = 13151 / 200, order = 10, velocity = 100\<rparr>]\<rparr>,
              [])"
proof -
  let ?s = "initState\<lparr>heldNotes :=
        [\<lparr>equalPitch = 60, justPitch = 1201 / 20, order = 3, velocity = 100\<rparr>,
         \<lparr>equalPitch = 66, justPitch = 1319 / 20, order = 3, velocity = 100\<rparr>]\<rparr>"
  have h: "length (justSystem ?s) = 12" by (simp add: initState_def)
  have v: "justify (?s\<lparr>heldNotes := noteHandler 62 70 (heldNotes ?s)\<rparr>)
      = Some (initState\<lparr>heldNotes :=
                [\<lparr>equalPitch = 60, justPitch = 3001 / 50, order = 6, velocity = 100\<rparr>,
                 \<lparr>equalPitch = 62, justPitch = 3103 / 50, order = 6, velocity = 70\<rparr>,
                 \<lparr>equalPitch = 66, justPitch = 1648 / 25, order = 3, velocity = 100\<rparr>]\<rparr>)"
    by (simp add: eval_defs)
  have w: "justify (?s\<lparr>justSystem := elevenLimit\<rparr>)
      = Some (initState\<lparr>justSystem := elevenLimit, heldNotes :=
                [\<lparr>equalPitch = 60, justPitch = 12049 / 200, order = 10, velocity = 100\<rparr>,
                 \<lparr>equalPitch = 66, justPitch = 13151 / 200, order = 10, velocity = 100\<rparr>]\<rparr>)"
    by (simp add: eval_defs elevenLimit_def)
  have t: "(if (11::int) = 5 then fiveLimit else if (11::int) = 7 then sevenLimit
            else if (11::int) = 11 then elevenLimit
            else if (11::int) = 13 then thirteenLimit else justSystem ?s) = elevenLimit"
    by simp
  show ?thesis
    using pitch_messages_after_note_event [OF h, of 62 70 11] h
    unfolding v t w
    by (auto simp: initState_def justCompOut_def pitchListsOut_def offsetOctaveOut_def
        offsetListOut_def jsrem_def Let_def)
qed

text \<open>
  C8 as claimed fails in its last part. With the major third 60, 64 held, tuned under
  mean-centering, and the mode then switched off by \<open>setMeanMode\<close>, the rejected
  \<open>setLimit(9)\<close> still runs the retuning pass, which moves the working pitches from 60.07
  and 63.93 to 60 and 63.86.
\<close>

theorem setLimit_invalid_counterexample:
  "setLimit 9 ((initState\<lparr>heldNotes :=
        [\<lparr>equalPitch = 60, justPitch = 6007 / 100, order = 2, velocity = 100\<rparr>,
         \<lparr>equalPitch = 64, justPitch = 6393 / 100, order = 2, velocity = 100\<rparr>]\<rparr>)\<lparr>meanMode := False\<rparr>)
   = Some (initState\<lparr>meanMode := False, heldNotes :=
             [\<lparr>equalPitch = 60, justPitch = 60, order = 2, velocity = 100\<rparr>,
              \<lparr>equalPitch = 64, justPitch = 3193 / 50, order = 2, velocity = 100\<rparr>]\<rparr>,
           [PostError ''Tuning not available.\<newline>Valid arguments: 5, 7, 11, 13''])"
  by (simp add: eval_defs)

text \<open>
  C8, amended. For every integer argument other than 5, 7, 11 and 13, \<open>setLimit\<close> reports
  the error and leaves the selected table, the intensity and the mean mode as they were.
  It then runs the retuning pass all the same: the state it leaves is the one \<open>justify\<close>
  returns. When the held notes are those that a retuning pass under the current
  configuration has left, the whole state, every working pitch included, is unchanged.
\<close>

theorem setLimit_invalid_keeps_table:
  assumes "val \<noteq> 5" and "val \<noteq> 7" and "val \<noteq> 11" and "val \<noteq> 13"
    and "length (justSystem s) = 12"
  shows "\<exists>s'. setLimit val s = Some (s', [PostError ''Tuning not available.\<newline>Valid arguments: 5, 7, 11, 13''])
           \<and> justify s = Some s'
           \<and> heldNotes s' = passNotes (justSystem s) (meanMode s) (heldNotes s)
           \<and> justSystem s' = justSystem s \<and> intensity s' = intensity s
           \<and> meanMode s' = meanMode s
           \<and> (justify s0 = Some s \<longrightarrow> s' = s)"
proof -
  let ?s' = "s\<lparr>heldNotes := passNotes (justSystem s) (meanMode s) (heldNotes s)\<rparr>"
  have j: "justify s = Some ?s'" using assms(5) by (rule justify_passNotes)
  then have 1: "setLimit val s = Some (?s', [PostError ''Tuning not available.\<newline>Valid arguments: 5, 7, 11, 13''])"
    using assms(1-4) by (simp add: setLimit_def)
  have 2: "?s' = s" if "justify s0 = Some s"
    using justify_fixpoint [OF that assms(5)] j by simp
  show ?thesis using 1 2 j by auto
qed

text \<open>The witness takes the theorem twice: at the tuned major third, which the rejected
  call leaves as it is, and at the fifth 60, 67 tuned under mean-centering with the mode
  switched off since, where the pass of the rejected call moves both working pitches.\<close>

theorem setLimit_invalid_keeps_table_witness:
  "(9::int) \<noteq> 5 \<and> (9::int) \<noteq> 7 \<and> (9::int) \<noteq> 11 \<and> (9::int) \<noteq> 13
   \<and> length (justSystem (initState\<lparr>heldNotes :=
        [\<lparr>equalPitch = 60, justPitch = 6007 / 100, order = 2, velocity = 100\<rparr>,
         \<lparr>equalPitch = 64, justPitch = 6393 / 100, order = 2, velocity = 100\<rparr>]\<rparr>)) = 12
   \<and> justify (initState\<lparr>heldNotes := [mkNote 60 100, mkNote 64 100]\<rparr>) = Some (initState\<lparr>heldNotes :=
        [\<lparr>equalPitch = 60, justPitch = 6007 / 100, order = 2, velocity = 100\<rparr>,
         \<lparr>equalPitch = 64, justPitch = 6393 / 100, order = 2, velocity = 100\<rparr>]\<rparr>)
   \<and> setLimit 9 (initState\<lparr>heldNotes :=
        [\<lparr>equalPitch = 60, justPitch = 6007 / 100, order = 2, velocity = 100\<rparr>,
         \<lparr>equalPitch = 64, justPitch = 6393 / 100, order = 2, velocity = 100\<rparr>]\<rparr>) = Some ((initState\<lparr>heldNotes :=
        [\<lparr>equalPitch = 60, justPitch = 6007 / 100, order = 2, velocity = 100\<rparr>,
         \<lparr>equalPitch = 64, justPitch = 6393 / 100, order = 2, velocity = 100\<rparr>]\<rparr>), [PostError ''Tuning not available.\<newline>Valid arguments: 5, 7, 11, 13''])
   \<and> length (justSystem (initState\<lparr>meanMode := False, heldNotes :=
        [\<lparr>equalPitch = 60, justPitch = 5999 / 100, order = 8, velocity = 100\<rparr>,
         \<lparr>equalPitch = 67, justPitch = 6701 / 100, order = 8, velocity = 100\<rparr>]\<rparr>)) = 12
   \<and> justify (initState\<lparr>meanMode := False, heldNotes :=
        [\<lparr>equalPitch = 60, justPitch = 5999 / 100, order = 8, velocity = 100\<rparr>,
         \<lparr>equalPitch = 67, justPitch = 6701 / 100, order = 8, velocity = 100\<rparr>]\<rparr>)
      = Some (initState\<lparr>meanMode := False, heldNotes :=
                [\<lparr>equalPitch = 60, justPitch = 60, order = 8, velocity = 100\<rparr>,
                 \<lparr>equalPitch = 67, justPitch = 3351 / 50, order = 8, velocity = 100\<rparr>]\<rparr>)
   \<and> setLimit 9 (initState\<lparr>meanMode := False, heldNotes :=
        [\<lparr>equalPitch = 60, justPitch = 5999 / 100, order = 8, velocity = 100\<rparr>,
         \<lparr>equalPitch = 67, justPitch = 6701 / 100, order = 8, velocity = 100\<rparr>]\<rparr>)
      = Some (initState\<lparr>meanMode := False, heldNotes :=
                [\<lparr>equalPitch = 60, justPitch = 60, order = 8, velocity = 100\<rparr>,
                 \<lparr>equalPitch = 67, justPitch = 3351 / 50, order = 8, velocity = 100\<rparr>]\<rparr>,
              [PostError ''Tuning not available.\<newline>Valid arguments: 5, 7, 11, 13''])"
proof -
  let ?t = "initState\<lparr>heldNotes :=
        [\<lparr>equalPitch = 60, justPitch = 6007 / 100, order = 2, velocity = 100\<rparr>,
         \<lparr>equalPitch = 64, justPitch = 6393 / 100, order = 2, velocity = 100\<rparr>]\<rparr>"
  let ?s0 = "initState\<lparr>heldNotes := [mkNote 60 100, mkNote 64 100]\<rparr>"
  let ?f = "initState\<lparr>meanMode := False, heldNotes :=
        [\<lparr>equalPitch = 60, justPitch = 5999 / 100, order = 8, velocity = 100\<rparr>,
         \<lparr>equalPitch = 67, justPitch = 6701 / 100, order = 8, velocity = 100\<rparr>]\<rparr>"
  have h: "length (justSystem ?t) = 12" by (simp add: initState_def)
  have v: "justify ?s0 = Some ?t"
    by (simp add: eval_defs)
  have hf: "length (justSystem ?f) = 12" by (simp add: initState_def)
  have vf: "justify ?f
      = Some (initState\<lparr>meanMode := False, heldNotes :=
                [\<lparr>equalPitch = 60, justPitch = 60, order = 8, velocity = 100\<rparr>,
                 \<lparr>equalPitch = 67, justPitch = 3351 / 50, order = 8, velocity = 100\<rparr>]\<rparr>)"
    by (simp add: eval_defs)
  have a: "setLimit 9 ?t = Some (?t, [PostError ''Tuning not available.\<newline>Valid arguments: 5, 7, 11, 13''])"
    using setLimit_invalid_keeps_table [of 9 ?t ?s0] h v by auto
  have b: "setLimit 9 ?f
      = Some (initState\<lparr>meanMode := False, heldNotes :=
                [\<lparr>equalPitch = 60, justPitch = 60, order = 8, velocity = 100\<rparr>,
                 \<lparr>equalPitch = 67, justPitch = 3351 / 50, order = 8, velocity = 100\<rparr>]\<rparr>,
              [PostError ''Tuning not available.\<newline>Valid arguments: 5, 7, 11, 13''])"
    using setLimit_invalid_keeps_table [of 9 ?f ?s0] hf unfolding vf by auto
  show ?thesis using a b h v hf vf by simp
qed

text \<open>The states of the three counterexamples are reached from the initial state: the
  major third by two note-ons, the stale state by \<open>setMeanMode(false)\<close> after them, the
  minor seventh by two note-ons.\<close>

lemma counterexample_states_reached:
  "map_option fst (noteIn 60 100 initState)
     = Some (initState\<lparr>heldNotes :=
         [\<lparr>equalPitch = 60, justPitch = 60, order = - 1, velocity = 100\<rparr>]\<rparr>)"
  "map_option fst (noteIn 64 100 (initState\<lparr>heldNotes :=
         [\<lparr>equalPitch = 60, justPitch = 60, order = - 1, velocity = 100\<rparr>]\<rparr>))
     = Some (initState\<lparr>heldNotes :=
         [\<lparr>equalPitch = 60, justPitch = 6007 / 100, order = 2, velocity = 100\<rparr>,
          \<lparr>equalPitch = 64, justPitch = 6393 / 100, order = 2, velocity = 100\<rparr>]\<rparr>)"
  "fst (setMeanMode (JBool False) (initState\<lparr>heldNotes :=
         [\<lparr>equalPitch = 60, justPitch = 6007 / 100, order = 2, velocity = 100\<rparr>,
          \<lparr>equalPitch = 64, justPitch = 6393 / 100, order = 2, velocity = 100\<rparr>]\<rparr>))
     = initState\<lparr>heldNotes :=
         [\<lparr>equalPitch = 60, justPitch = 6007 / 100, order = 2, velocity = 100\<rparr>,
          \<lparr>equalPitch = 64, justPitch = 6393 / 100, order = 2, velocity = 100\<rparr>]\<rparr>
        \<lparr>meanMode := False\<rparr>"
  "map_option fst (noteIn 70 100 (initState\<lparr>heldNotes :=
         [\<lparr>equalPitch = 60, justPitch = 60, order = - 1, velocity = 100\<rparr>]\<rparr>))
     = Some (initState\<lparr>heldNotes :=
         [\<lparr>equalPitch = 60, justPitch = 3001 / 50, order = 7, velocity = 100\<rparr>,
          \<lparr>equalPitch = 70, justPitch = 3499 / 50, order = 7, velocity = 100\<rparr>]\<rparr>)"
  by (simp_all add: eval_defs)

text \<open>The states of the witnesses for \<open>setLimit\<close> are reached as well: the tritone 60, 66
  and the fifth 60, 67 by two note-ons, the latter followed by \<open>setMeanMode(false)\<close>.\<close>

lemma setLimit_witness_states_reached:
  "map_option fst (noteIn 66 100 (initState\<lparr>heldNotes :=
         [\<lparr>equalPitch = 60, justPitch = 60, order = - 1, velocity = 100\<rparr>]\<rparr>))
     = Some (initState\<lparr>heldNotes :=
         [\<lparr>equalPitch = 60, justPitch = 1201 / 20, order = 3, velocity = 100\<rparr>,
          \<lparr>equalPitch = 66, justPitch = 1319 / 20, order = 3, velocity = 100\<rparr>]\<rparr>)"
  "map_option fst (noteIn 67 100 (initState\<lparr>heldNotes :=
         [\<lparr>equalPitch = 60, justPitch = 60, order = - 1, velocity = 100\<rparr>]\<rparr>))
     = Some (initState\<lparr>heldNotes :=
         [\<lparr>equalPitch = 60, justPitch = 5999 / 100, order = 8, velocity = 100\<rparr>,
          \<lparr>equalPitch = 67, justPitch = 6701 / 100, order = 8, velocity = 100\<rparr>]\<rparr>)"
  "fst (setMeanMode (JNum 0) (initState\<lparr>heldNotes :=
         [\<lparr>equalPitch = 60, justPitch = 5999 / 100, order = 8, velocity = 100\<rparr>,
          \<lparr>equalPitch = 67, justPitch = 6701 / 100, order = 8, velocity = 100\<rparr>]\<rparr>))
     = initState\<lparr>meanMode := False, heldNotes :=
         [\<lparr>equalPitch = 60, justPitch = 5999 / 100, order = 8, velocity = 100\<rparr>,
          \<lparr>equalPitch = 67, justPitch = 6701 / 100, order = 8, velocity = 100\<rparr>]\<rparr>"
  by (simp_all add: eval_defs)

end
